theory Spec2Isabelle
  imports Main "HOL-Library.Sublist"
begin

section \<open>The Qt application shell of the wallet client (gui/qt/__init__.py)\<close>

text \<open>
  The class \<open>ElectrumGui\<close> is embedded as functions on an explicit state record.
  Every call the shell makes into a collaborator (daemon, configuration, wizard, Qt
  widgets, plugins) is appended to an event trace, so that "a dialog is shown", "the
  wizard is invoked" or "quit is requested" are statements about that trace. What a
  collaborator answers is not decided by this file of the repository; it is read from
  an environment record \<open>env\<close>, one field per collaborator call.

  Collaborator calls are fallible in the model exactly where the source handles or
  documents a failure: \<open>daemon.load_wallet\<close>, \<open>daemon.stop_wallet\<close>,
  \<open>get_new_wallet_path\<close>, \<open>wizard.run_and_get_wallet\<close>, \<open>wizard.init_network\<close>,
  and the import, stylesheet and version calls of \<open>qdarkstyle\<close>. Widget methods,
  plugin hooks, configuration accessors and \<open>standardize_path\<close> are taken to return.
\<close>

subsection \<open>Python values\<close>

datatype exc_class =
    UserCancelled | GoBack | RuntimeWarning | FileNotFoundError
  | ValueError | IndexError | TypeError | NameError | AttributeError
  | ImportError | OtherError

text \<open>An exception object: its class and \<open>str(e)\<close>.\<close>

datatype exc = Exc (exc_class: exc_class) (exc_str: string)

text \<open>Truthiness of an optional string: \<open>None\<close> and the empty string are falsy.\<close>

fun truthy :: "string option \<Rightarrow> bool" where
  "truthy None = False"
| "truthy (Some p) = (p \<noteq> [])"

fun starts_with :: "string \<Rightarrow> string \<Rightarrow> bool" where
  "starts_with [] s = True"
| "starts_with (c # cs) [] = False"
| "starts_with (c # cs) (d # ds) = (c = d \<and> starts_with cs ds)"

text \<open>Python's \<open>sub in s\<close> on strings.\<close>

fun str_contains :: "string \<Rightarrow> string \<Rightarrow> bool" where
  "str_contains sub [] = (sub = [])"
| "str_contains sub (c # cs) = (starts_with sub (c # cs) \<or> str_contains sub cs)"

subsection \<open>Wallets, windows, configuration\<close>

text \<open>
  Of a wallet the shell reads \<open>wallet.storage.path\<close> and whether one of
  \<open>wallet.get_keystores()\<close> is a \<open>Hardware_KeyStore\<close>.
\<close>

record wallet =
  storage_path :: string
  hardware :: bool

text \<open>
  An \<open>ElectrumWindow\<close> is a Qt object compared by identity; \<open>wid\<close> is that identity,
  allocated from a counter of the state when the window is constructed.
\<close>

record window =
  wid :: nat
  win_wallet :: wallet

text \<open>The configuration keys the shell reads or writes; \<open>None\<close> is an unset key.\<close>

record config =
  cfg_dark_icon :: "bool option"
  cfg_auto_update_check :: "bool option"
  cfg_qt_gui_color_theme :: "string option"
  cfg_auto_connect :: "bool option"
  cfg_url :: "string option"

subsection \<open>Events\<close>

datatype dialog =
    HardwareWalletDlg wallet
  | TwoFADlg
  | CannotLoadDlg string

datatype logmsg =
    LogRepr exc
  | LogGoBack exc
  | LogTraceback exc
  | LogOffline
  | LogInterval nat
  | LogDisabled
  | LogDarkVersion exc
  | LogDarkError exc

datatype event =
    Log logmsg
  | OpenLastWallet
  | GetWalletPath
  | BringToTop nat
  | LoadWallet "string option"
  | StopWallet string
  | Warning dialog
  | NewWalletPath
  | WizardRun "string option"
  | WizardTerminate
  | GcCollect
  | StartThreads wallet
  | AddWallet wallet
  | CreateWindow nat wallet
  | BuildTrayMenu "nat list"
  | RunHook string
  | PayToURI nat string
  | SetWindowState nat
  | ActivateWindow nat
  | GcSchedule
  | SaveLastWallet wallet
  | Quit
  | UpdateTimerTimeout nat
  | DoCheck nat
  | SetStyleSheetDark
  | StylePatch bool "nat list option"
  | ColorSchemeUpdate bool
  | SetTrayIcon bool
  | NetworkWizard
  | InstallSigint
  | ConnectLastWindowClosed
  | ConnectAboutToQuit
  | InstallExceptionHook
  | ExecEventLoop

subsection \<open>The state of the shell\<close>

text \<open>
  \<open>update_checker_timer\<close>: a repeating \<open>QTimer\<close> with the attribute \<open>first_run\<close> the
  source attaches to it. \<open>t_started\<close> is the clock value at which the running countdown
  began. The attribute is read only in the timeout slot, which runs only after
  \<open>_start_auto_update_timer\<close> has set it.
\<close>

record qtimer =
  t_active :: bool
  t_interval :: nat
  t_first_run :: bool
  t_started :: nat

record gui =
  config :: config
  network :: bool
  windows :: "window list"
  next_wid :: nat
  dark_icon :: bool
  timer_active :: bool
  update_checker_timer :: qtimer
  quit_on_last_window_closed :: bool
  clock :: nat
  trace :: "event list"

text \<open>
  The answers of the collaborators during one call. \<open>load_wallet\<close> and
  \<open>run_and_get_wallet\<close> return a wallet or \<open>None\<close>, or raise.
\<close>

record env =
  standardize_path :: "string \<Rightarrow> string"
  get_wallet_path :: string
  load_wallet :: "string option \<Rightarrow> exc + wallet option"
  stop_wallet :: "string \<Rightarrow> exc option"
  wallet_folder :: "exc + string"
  get_new_wallet_name :: "string \<Rightarrow> exc + string"
  path_join :: "string \<Rightarrow> string \<Rightarrow> string"
  run_and_get_wallet :: "string option \<Rightarrow> exc + wallet option"
  wizard_init_network :: "exc option"
  qdarkstyle_import :: "exc option"
  qdarkstyle_load_stylesheet :: "exc option"
  qdarkstyle_version :: "exc + nat list"

definition emit :: "event \<Rightarrow> gui \<Rightarrow> gui" where
  "emit e s = s\<lparr>trace := trace s @ [e]\<rparr>"

definition emits :: "event list \<Rightarrow> gui \<Rightarrow> gui" where
  "emits es s = s\<lparr>trace := trace s @ es\<rparr>"

subsection \<open>Opening windows\<close>

text \<open>\<open>build_tray_menu\<close>: the menu is rebuilt from the windows open at that moment.\<close>

definition build_tray_menu :: "gui \<Rightarrow> gui" where
  "build_tray_menu s = emit (BuildTrayMenu (map wid (windows s))) s"

definition create_window_for_wallet :: "wallet \<Rightarrow> gui \<Rightarrow> window \<times> gui" where
  "create_window_for_wallet wal s =
     (let w = \<lparr>wid = next_wid s, win_wallet = wal\<rparr>;
          s1 = emit (CreateWindow (wid w) wal)
                 (s\<lparr>windows := windows s @ [w], next_wid := Suc (next_wid s)\<rparr>);
          s2 = build_tray_menu s1
      in (w, emit (RunHook ''on_new_window'') s2))"

text \<open>
  \<open>get_wallet_folder\<close> and \<open>get_new_wallet_path\<close>: both may raise. The directory of
  \<open>config.get_wallet_path()\<close>, the name \<open>get_new_wallet_name\<close> picks in it and
  \<open>os.path.join\<close> are read from the environment.
\<close>

definition get_wallet_folder :: "env \<Rightarrow> exc + string" where
  "get_wallet_folder env = wallet_folder env"

definition get_new_wallet_path :: "env \<Rightarrow> exc + string" where
  "get_new_wallet_path env =
     (case get_wallet_folder env of
        Inl e \<Rightarrow> Inl e
      | Inr folder \<Rightarrow>
          (case get_new_wallet_name env folder of
             Inl e \<Rightarrow> Inl e
           | Inr filename \<Rightarrow> Inr (path_join env folder filename)))"

text \<open>
  \<open>warning\<close> shows a modal dialog. \<open>_slp_warn_if_wallet_not_compat\<close>: a failing
  \<open>daemon.stop_wallet\<close> is caught by the bare \<open>except\<close>.
\<close>

definition warning :: "dialog \<Rightarrow> gui \<Rightarrow> gui" where
  "warning d s = emit (Warning d) s"

definition slp_warn_if_wallet_not_compat :: "env \<Rightarrow> wallet \<Rightarrow> bool \<Rightarrow> gui \<Rightarrow> bool \<times> gui" where
  "slp_warn_if_wallet_not_compat env wal stop s =
     (if hardware wal then
        (let s1 = (if stop then
                     (case stop_wallet env (storage_path wal) of
                        Some e \<Rightarrow> emit (StopWallet (storage_path wal)) s
                      | None \<Rightarrow> emit (StopWallet (storage_path wal)) s)
                   else s)
         in (True, warning (HardwareWalletDlg wal) s1))
      else (False, s))"

text \<open>The \<open>for w in self.windows\<close> scan of \<open>start_new_window\<close>: the first match.\<close>

fun scan_windows :: "string option \<Rightarrow> window list \<Rightarrow> window option" where
  "scan_windows path [] = None"
| "scan_windows path (w # ws) =
     (if \<not> truthy path \<or> Some (storage_path (win_wallet w)) = path then Some w
      else scan_windows path ws)"

text \<open>\<open>path = path and standardize_path(path)\<close>\<close>

definition standardize :: "env \<Rightarrow> string option \<Rightarrow> string option" where
  "standardize env path =
     (case path of
        None \<Rightarrow> None
      | Some p \<Rightarrow> if p = [] then Some p else Some (standardize_path env p))"

text \<open>
  Lines 300-316, the inner \<open>try\<close>: the result is the exception re-raised to the
  outer handler, or the path and the wallet (or \<open>None\<close>) the flow continues with.
\<close>

definition load_failed :: "env \<Rightarrow> exc \<Rightarrow> gui \<Rightarrow> (exc + string option \<times> wallet option) \<times> gui" where
  "load_failed env e s =
     (let s1 = emit (Log (LogRepr e)) s
      in if windows s1 \<noteq> [] then (Inl e, s1)
         else (case get_new_wallet_path env of
                 Inl e2 \<Rightarrow> (Inl e2, emit NewWalletPath s1)
               | Inr p \<Rightarrow> (Inr (Some p, None), emit NewWalletPath s1)))"

definition try_load :: "env \<Rightarrow> string option \<Rightarrow> gui \<Rightarrow> (exc + string option \<times> wallet option) \<times> gui" where
  "try_load env path s =
     (let s1 = emit (LoadWallet path) s
      in case load_wallet env path of
           Inl e \<Rightarrow> load_failed env e s1
         | Inr None \<Rightarrow> (Inr (path, None), s1)
         | Inr (Some wal) \<Rightarrow>
             (case slp_warn_if_wallet_not_compat env wal True s1 of
                (True, s2) \<Rightarrow>
                  load_failed env (Exc RuntimeWarning ''User doesn't want to use this wallet'') s2
              | (False, s2) \<Rightarrow> (Inr (path, Some wal), s2)))"

text \<open>
  Lines 317-333, the wizard: \<open>UserCancelled\<close> and \<open>GoBack\<close> are caught, anything else
  propagates; the \<open>finally\<close> block runs in every case. The result is the exception, or
  \<open>None\<close> for the early \<open>return\<close>, or the wallet.
\<close>

definition run_wizard :: "env \<Rightarrow> string option \<Rightarrow> gui \<Rightarrow> (exc + wallet option) \<times> gui" where
  "run_wizard env path s =
     (let s1 = emit (WizardRun path) s
      in case run_and_get_wallet env path of
           Inl e \<Rightarrow>
             (if exc_class e = UserCancelled then
                (Inr None, emits [WizardTerminate, GcCollect] s1)
              else if exc_class e = GoBack then
                (Inr None, emits [Log (LogGoBack e), WizardTerminate, GcCollect] s1)
              else (Inl e, emits [WizardTerminate, GcCollect] s1))
         | Inr None \<Rightarrow> (Inr None, emits [WizardTerminate, GcCollect] s1)
         | Inr (Some wal) \<Rightarrow>
             (Inr (Some wal),
              emits [WizardTerminate, GcCollect, StartThreads wal, AddWallet wal] s1))"

text \<open>Lines 337-343, the outer handler.\<close>

definition load_error :: "exc \<Rightarrow> gui \<Rightarrow> gui" where
  "load_error e s =
     (let s1 = emit (Log (LogTraceback e)) s
      in if str_contains ''2fa'' (exc_str e) then warning TwoFADlg s1
         else warning (CannotLoadDlg (exc_str e)) s1)"

text \<open>Lines 334-336: hardware wallets are rejected.\<close>

definition reject_hardware :: "env \<Rightarrow> wallet \<Rightarrow> gui \<Rightarrow> wallet option \<times> gui" where
  "reject_hardware env wal s =
     (case slp_warn_if_wallet_not_compat env wal True s of
        (True, s1) \<Rightarrow> (None, s1)
      | (False, s1) \<Rightarrow> (Some wal, s1))"

text \<open>
  Lines 298-343, the \<open>else\<close> branch of the scan up to the creation of the window:
  \<open>None\<close> is a \<open>return\<close> without a window.
\<close>

definition open_wallet :: "env \<Rightarrow> string option \<Rightarrow> gui \<Rightarrow> wallet option \<times> gui" where
  "open_wallet env path s =
     (case try_load env path s of
        (Inl e, s1) \<Rightarrow> (None, load_error e s1)
      | (Inr (path1, Some wal), s1) \<Rightarrow> reject_hardware env wal s1
      | (Inr (path1, None), s1) \<Rightarrow>
          (case run_wizard env path1 s1 of
             (Inl e, s2) \<Rightarrow> (None, load_error e s2)
           | (Inr None, s2) \<Rightarrow> (None, s2)
           | (Inr (Some wal), s2) \<Rightarrow> reject_hardware env wal s2))"

text \<open>Lines 345-352, common to the window found and the window created.\<close>

definition raise_window :: "window \<Rightarrow> string option \<Rightarrow> gui \<Rightarrow> window option \<times> gui" where
  "raise_window w uri s =
     (let s1 = (case uri of
                  None \<Rightarrow> s
                | Some u \<Rightarrow> if u = [] then s else emit (PayToURI (wid w) u) s)
      in (Some w, emits [BringToTop (wid w), SetWindowState (wid w), ActivateWindow (wid w)] s1))"

text \<open>Lines 285-290: the last wallet is substituted for an empty path when nothing is open.\<close>

definition last_wallet_if_none :: "env \<Rightarrow> string option \<Rightarrow> gui \<Rightarrow> string option \<times> gui" where
  "last_wallet_if_none env path s =
     (if \<not> truthy path \<and> windows s = [] then
        (Some (get_wallet_path env), emits [OpenLastWallet, GetWalletPath] s)
      else (path, s))"

definition start_new_window :: "env \<Rightarrow> string option \<Rightarrow> string option \<Rightarrow> gui \<Rightarrow> window option \<times> gui" where
  "start_new_window env path uri s =
     (case last_wallet_if_none env path s of
        (path1, s1) \<Rightarrow>
          (let path2 = standardize env path1
           in case scan_windows path2 (windows s1) of
                Some w \<Rightarrow> raise_window w uri (emit (BringToTop (wid w)) s1)
              | None \<Rightarrow>
                  (case open_wallet env path2 s1 of
                     (None, s2) \<Rightarrow> (None, s2)
                   | (Some wal, s2) \<Rightarrow>
                       (case create_window_for_wallet wal s2 of
                          (w, s3) \<Rightarrow> raise_window w uri s3))))"

subsection \<open>Closing windows\<close>

definition gc_schedule :: "gui \<Rightarrow> gui" where
  "gc_schedule s = emit GcSchedule s"

text \<open>\<open>_quit_after_last_window\<close>: \<open>qApp.quit()\<close> behind \<open>qApp.quitOnLastWindowClosed()\<close>.\<close>

definition quit_after_last_window :: "gui \<Rightarrow> gui" where
  "quit_after_last_window s = (if quit_on_last_window_closed s then emit Quit s else s)"

text \<open>\<open>list.remove\<close> raises \<open>ValueError\<close> when the window is not in the list.\<close>

definition close_window :: "window \<Rightarrow> gui \<Rightarrow> exc + gui" where
  "close_window w s =
     (if w \<notin> set (windows s) then Inl (Exc ValueError ''list.remove(x): x not in list'')
      else
        (let s1 = s\<lparr>windows := remove1 w (windows s)\<rparr>;
             s2 = build_tray_menu s1;
             s3 = emit (RunHook ''on_close_window'') s2;
             s4 = gc_schedule s3
         in if windows s4 = [] then
              Inr (quit_after_last_window (emit (SaveLastWallet (win_wallet w)) s4))
            else Inr s4))"

subsection \<open>Tray icon\<close>

definition toggle_tray_icon :: "gui \<Rightarrow> gui" where
  "toggle_tray_icon s =
     (let s1 = s\<lparr>dark_icon := \<not> dark_icon s\<rparr>;
          s2 = s1\<lparr>config := (config s1)\<lparr>cfg_dark_icon := Some (dark_icon s1)\<rparr>\<rparr>
      in emit (SetTrayIcon (dark_icon s2)) s2)"

subsection \<open>Update-check scheduler\<close>

text \<open>Intervals are in milliseconds: \<open>10.0*1e3\<close> and \<open>3600.0*1e3\<close>.\<close>

definition has_auto_update_check :: "gui \<Rightarrow> bool" where
  "has_auto_update_check s =
     (case cfg_auto_update_check (config s) of None \<Rightarrow> True | Some b \<Rightarrow> b)"

definition start_auto_update_timer :: "bool \<Rightarrow> gui \<Rightarrow> gui" where
  "start_auto_update_timer first_run s =
     (let interval = (if first_run then 10000 else 3600000);
          s1 = s\<lparr>update_checker_timer :=
                  (update_checker_timer s)\<lparr>t_first_run := first_run, t_active := True,
                     t_interval := interval, t_started := clock s\<rparr>\<rparr>
      in emit (Log (LogInterval (interval div 1000))) s1)"

definition stop_auto_update_timer :: "gui \<Rightarrow> gui" where
  "stop_auto_update_timer s =
     emit (Log LogDisabled)
       (s\<lparr>update_checker_timer := (update_checker_timer s)\<lparr>t_active := False\<rparr>\<rparr>)"

definition set_auto_update_check :: "bool \<Rightarrow> gui \<Rightarrow> gui" where
  "set_auto_update_check b s =
     (if has_auto_update_check s \<noteq> b then
        (let s1 = s\<lparr>config := (config s)\<lparr>cfg_auto_update_check := Some b\<rparr>\<rparr>
         in if b then start_auto_update_timer False s1 else stop_auto_update_timer s1)
      else s)"

text \<open>
  The timeout slot; \<open>recently\<close> is what \<open>update_checker.did_check_recently()\<close> answers.
  A check made by the slot is recorded with the clock value.
\<close>

definition on_auto_update_timeout :: "bool \<Rightarrow> gui \<Rightarrow> gui" where
  "on_auto_update_timeout recently s =
     (let s1 = (if \<not> network s then emit (Log LogOffline) s
                else if \<not> recently then emit (DoCheck (clock s)) s
                else s)
      in if t_first_run (update_checker_timer s1) then start_auto_update_timer False s1
         else s1)"

text \<open>
  Qt delivers the timeout of a running repeating timer when its interval has elapsed
  (taken here to be exactly at the deadline), the next countdown starts at that moment,
  and the slot runs. A stopped timer delivers nothing.
\<close>

definition update_timer_fires :: "bool \<Rightarrow> gui \<Rightarrow> gui" where
  "update_timer_fires recently s =
     (if t_active (update_checker_timer s) then
        (let t = t_started (update_checker_timer s) + t_interval (update_checker_timer s);
             s1 = s\<lparr>clock := t,
                    update_checker_timer := (update_checker_timer s)\<lparr>t_started := t\<rparr>\<rparr>
         in on_auto_update_timeout recently (emit (UpdateTimerTimeout t) s1))
      else s)"

fun run_timeouts :: "bool list \<Rightarrow> gui \<Rightarrow> gui" where
  "run_timeouts [] s = s"
| "run_timeouts (r # rs) s = run_timeouts rs (update_timer_fires r s)"

fun fire_times :: "event list \<Rightarrow> nat list" where
  "fire_times [] = []"
| "fire_times (UpdateTimerTimeout t # es) = t # fire_times es"
| "fire_times (e # es) = fire_times es"

fun check_times :: "event list \<Rightarrow> nat list" where
  "check_times [] = []"
| "check_times (DoCheck t # es) = t # check_times es"
| "check_times (e # es) = check_times es"

subsection \<open>Theme\<close>

text \<open>The exception classes the inner \<open>except\<close> around \<open>normalize_version\<close> names.\<close>

definition version_error_caught :: "exc_class \<Rightarrow> bool" where
  "version_error_caught c =
     (c = ValueError \<or> c = IndexError \<or> c = TypeError \<or> c = NameError \<or> c = AttributeError)"

text \<open>
  Lines 151-156, the body of the outer \<open>try\<close>: the exception that reaches the outer
  handler, or the value of \<open>darkstyle_ver\<close>.
\<close>

definition try_dark_style :: "env \<Rightarrow> gui \<Rightarrow> (exc + nat list option) \<times> gui" where
  "try_dark_style env s =
     (case qdarkstyle_import env of
        Some e \<Rightarrow> (Inl e, s)
      | None \<Rightarrow>
          (case qdarkstyle_load_stylesheet env of
             Some e \<Rightarrow> (Inl e, s)
           | None \<Rightarrow>
               (let s1 = emit SetStyleSheetDark s
                in case qdarkstyle_version env of
                     Inr v \<Rightarrow> (Inr (Some v), s1)
                   | Inl e \<Rightarrow>
                       if version_error_caught (exc_class e) then
                         (Inr None, emit (Log (LogDarkVersion e)) s1)
                       else (Inl e, s1))))"

definition set_dark_theme_if_needed :: "env \<Rightarrow> gui \<Rightarrow> gui" where
  "set_dark_theme_if_needed env s =
     (let use_dark_theme = (cfg_qt_gui_color_theme (config s) = Some ''dark'')
      in case (if use_dark_theme then
                 (case try_dark_style env s of
                    (Inr ver, s1) \<Rightarrow> (True, ver, s1)
                  | (Inl e, s1) \<Rightarrow> (False, None, emit (Log (LogDarkError e)) s1))
               else (False, None, s)) of
           (dark, darkstyle_ver, s2) \<Rightarrow>
             emit (ColorSchemeUpdate dark) (emit (StylePatch dark darkstyle_ver) s2))"

subsection \<open>Construction and main\<close>

definition init_network :: "env \<Rightarrow> gui \<Rightarrow> exc option \<times> gui" where
  "init_network env s =
     (if network s then
        (if cfg_auto_connect (config s) = None then
           (let s1 = emit NetworkWizard s
            in case wizard_init_network env of
                 Some e \<Rightarrow> (Some e, s1)
               | None \<Rightarrow> (None, emit WizardTerminate s1))
         else (None, s))
      else (None, s))"

text \<open>
  \<open>main\<close> up to the call of \<open>app.exec_()\<close>, which blocks; what runs inside the event
  loop are the other operations of this section.
\<close>

definition main :: "env \<Rightarrow> gui \<Rightarrow> gui" where
  "main env s =
     (case init_network env s of
        (Some e, s1) \<Rightarrow>
          (if exc_class e = UserCancelled then s1
           else if exc_class e = GoBack then s1
           else emit (Log (LogTraceback e)) s1)
      | (None, s1) \<Rightarrow>
          (let s2 = emits [OpenLastWallet, GetWalletPath] (s1\<lparr>timer_active := True\<rparr>)
           in case start_new_window env (Some (get_wallet_path env)) (cfg_url (config s2)) s2 of
                (None, s3) \<Rightarrow> s3
              | (Some w, s3) \<Rightarrow>
                  emits [ConnectLastWindowClosed, ConnectAboutToQuit, InstallExceptionHook,
                         ExecEventLoop]
                    ((emit InstallSigint s3)\<lparr>quit_on_last_window_closed := True\<rparr>)))"

text \<open>
  \<open>__init__\<close>: a new \<open>QApplication\<close> has \<open>quitOnLastWindowClosed\<close> set (the Qt default),
  no window is open, no timer runs. \<open>t0\<close> is the clock value at construction. The
  language setting, the Qt application attributes and the application icon have no
  counterpart in the state.
\<close>

definition ElectrumGui_init :: "env \<Rightarrow> config \<Rightarrow> bool \<Rightarrow> nat \<Rightarrow> gui" where
  "ElectrumGui_init env cfg net t0 =
     (let s0 = \<lparr>config = cfg, network = net, windows = [], next_wid = 0, dark_icon = False,
                timer_active = False,
                update_checker_timer =
                  \<lparr>t_active = False, t_interval = 0, t_first_run = False, t_started = 0\<rparr>,
                quit_on_last_window_closed = True, clock = t0, trace = []\<rparr>;
          s1 = set_dark_theme_if_needed env s0;
          s2 = s1\<lparr>dark_icon := (case cfg_dark_icon cfg of None \<Rightarrow> False | Some b \<Rightarrow> b)\<rparr>;
          s3 = build_tray_menu (emit (SetTrayIcon (dark_icon s2)) s2);
          s4 = (if has_auto_update_check s3 then start_auto_update_timer True s3 else s3)
      in emits [RunHook ''init_qt'', ColorSchemeUpdate False] s4)"

text \<open>The states the shell can be in: constructed, then driven by its operations.\<close>

inductive reachable :: "gui \<Rightarrow> bool" where
  r_init: "reachable (ElectrumGui_init env cfg net t0)"
| r_main: "reachable s \<Longrightarrow> reachable (main env s)"
| r_start: "reachable s \<Longrightarrow> reachable (snd (start_new_window env path uri s))"
| r_close: "reachable s \<Longrightarrow> close_window w s = Inr s' \<Longrightarrow> reachable s'"
| r_toggle: "reachable s \<Longrightarrow> reachable (toggle_tray_icon s)"
| r_auto: "reachable s \<Longrightarrow> reachable (set_auto_update_check b s)"
| r_timeout: "reachable s \<Longrightarrow> reachable (update_timer_fires recently s)"

subsection \<open>Observations on states and traces\<close>

text \<open>The events a step from \<open>s\<close> to \<open>s'\<close> appended.\<close>

definition new_events :: "gui \<Rightarrow> gui \<Rightarrow> event list" where
  "new_events s s' = drop (length (trace s)) (trace s')"

text \<open>The events of the wallet-opening flow, lines 298-343.\<close>

fun open_event :: "event \<Rightarrow> bool" where
  "open_event (Log m) = True"
| "open_event (LoadWallet p) = True"
| "open_event (StopWallet p) = True"
| "open_event (Warning d) = True"
| "open_event NewWalletPath = True"
| "open_event (WizardRun p) = True"
| "open_event WizardTerminate = True"
| "open_event GcCollect = True"
| "open_event (StartThreads w) = True"
| "open_event (AddWallet w) = True"
| "open_event e = False"

text \<open>The events of \<open>start_new_window\<close> after the substitution of the last wallet.\<close>

fun start_event :: "event \<Rightarrow> bool" where
  "start_event (BringToTop n) = True"
| "start_event (CreateWindow n w) = True"
| "start_event (BuildTrayMenu ns) = True"
| "start_event (RunHook h) = True"
| "start_event (PayToURI n u) = True"
| "start_event (SetWindowState n) = True"
| "start_event (ActivateWindow n) = True"
| "start_event e = open_event e"

definition uri_events :: "window \<Rightarrow> string option \<Rightarrow> event list" where
  "uri_events w uri =
     (case uri of None \<Rightarrow> [] | Some u \<Rightarrow> if u = [] then [] else [PayToURI (wid w) u])"

definition raise_events :: "window \<Rightarrow> string option \<Rightarrow> event list" where
  "raise_events w uri =
     uri_events w uri @ [BringToTop (wid w), SetWindowState (wid w), ActivateWindow (wid w)]"

definition last_wallet_events :: "string option \<Rightarrow> gui \<Rightarrow> event list" where
  "last_wallet_events path s =
     (if \<not> truthy path \<and> windows s = [] then [OpenLastWallet, GetWalletPath] else [])"

text \<open>The path the window scan compares with.\<close>

definition scan_path :: "env \<Rightarrow> string option \<Rightarrow> gui \<Rightarrow> string option" where
  "scan_path env path s = standardize env (fst (last_wallet_if_none env path s))"

text \<open>
  What the wallet-opening flow (lines 298-343) appends to the trace and what it returns,
  as functions of the collaborator answers; \<open>busy\<close> is "some window is open".
\<close>

definition slp_events :: "wallet \<Rightarrow> event list" where
  "slp_events wal =
     (if hardware wal then [StopWallet (storage_path wal), Warning (HardwareWalletDlg wal)]
      else [])"

definition load_error_events :: "exc \<Rightarrow> event list" where
  "load_error_events e =
     [Log (LogTraceback e),
      Warning (if str_contains ''2fa'' (exc_str e) then TwoFADlg else CannotLoadDlg (exc_str e))]"

definition wizard_events :: "env \<Rightarrow> string option \<Rightarrow> event list" where
  "wizard_events env p =
     WizardRun p #
       (case run_and_get_wallet env p of
          Inl e \<Rightarrow>
            if exc_class e = UserCancelled then [WizardTerminate, GcCollect]
            else if exc_class e = GoBack then [Log (LogGoBack e), WizardTerminate, GcCollect]
            else [WizardTerminate, GcCollect] @ load_error_events e
        | Inr None \<Rightarrow> [WizardTerminate, GcCollect]
        | Inr (Some wal) \<Rightarrow>
            [WizardTerminate, GcCollect, StartThreads wal, AddWallet wal] @ slp_events wal)"

definition wizard_result :: "env \<Rightarrow> string option \<Rightarrow> wallet option" where
  "wizard_result env p =
     (case run_and_get_wallet env p of
        Inl e \<Rightarrow> None
      | Inr None \<Rightarrow> None
      | Inr (Some wal) \<Rightarrow> if hardware wal then None else Some wal)"

definition failed_events :: "env \<Rightarrow> exc \<Rightarrow> bool \<Rightarrow> event list" where
  "failed_events env e busy =
     Log (LogRepr e) #
       (if busy then load_error_events e
        else NewWalletPath #
          (case get_new_wallet_path env of
             Inl e2 \<Rightarrow> load_error_events e2
           | Inr np \<Rightarrow> wizard_events env (Some np)))"

definition failed_result :: "env \<Rightarrow> bool \<Rightarrow> wallet option" where
  "failed_result env busy =
     (if busy then None
      else (case get_new_wallet_path env of
              Inl e2 \<Rightarrow> None
            | Inr np \<Rightarrow> wizard_result env (Some np)))"

definition open_events :: "env \<Rightarrow> string option \<Rightarrow> bool \<Rightarrow> event list" where
  "open_events env p busy =
     LoadWallet p #
       (case load_wallet env p of
          Inl e \<Rightarrow> failed_events env e busy
        | Inr None \<Rightarrow> wizard_events env p
        | Inr (Some wal) \<Rightarrow>
            if hardware wal then
              slp_events wal @
                failed_events env (Exc RuntimeWarning ''User doesn't want to use this wallet'') busy
            else [])"

definition open_result :: "env \<Rightarrow> string option \<Rightarrow> bool \<Rightarrow> wallet option" where
  "open_result env p busy =
     (case load_wallet env p of
        Inl e \<Rightarrow> failed_result env busy
      | Inr None \<Rightarrow> wizard_result env p
      | Inr (Some wal) \<Rightarrow> if hardware wal then failed_result env busy else Some wal)"

text \<open>The window \<open>create_window_for_wallet\<close> constructs and the events it appends.\<close>

definition new_window :: "gui \<Rightarrow> wallet \<Rightarrow> window" where
  "new_window s wal = \<lparr>wid = next_wid s, win_wallet = wal\<rparr>"

definition created_events :: "gui \<Rightarrow> wallet \<Rightarrow> event list" where
  "created_events s wal =
     [CreateWindow (next_wid s) wal, BuildTrayMenu (map wid (windows s) @ [next_wid s]),
      RunHook ''on_new_window'']"

fun is_warning :: "event \<Rightarrow> bool" where
  "is_warning (Warning d) = True"
| "is_warning e = False"

text \<open>
  The wizard neither raises an exception other than \<open>UserCancelled\<close> and \<open>GoBack\<close> nor
  hands back a hardware wallet.
\<close>

definition wizard_quiet :: "env \<Rightarrow> string option \<Rightarrow> bool" where
  "wizard_quiet env p =
     (case run_and_get_wallet env p of
        Inl e \<Rightarrow> exc_class e = UserCancelled \<or> exc_class e = GoBack
      | Inr None \<Rightarrow> True
      | Inr (Some wal) \<Rightarrow> \<not> hardware wal)"

text \<open>
  The wallet \<open>daemon.load_wallet\<close> hands to \<open>start_new_window\<close>, when the scan finds no
  window and the call returns one.
\<close>

definition loaded_wallet :: "env \<Rightarrow> string option \<Rightarrow> gui \<Rightarrow> wallet option" where
  "loaded_wallet env path s =
     (case scan_windows (scan_path env path s) (windows s) of
        Some w \<Rightarrow> None
      | None \<Rightarrow>
          (case load_wallet env (scan_path env path s) of
             Inl e \<Rightarrow> None
           | Inr r \<Rightarrow> r))"

text \<open>The open windows of the wallet stored at \<open>np\<close>.\<close>

definition windows_for :: "string \<Rightarrow> gui \<Rightarrow> window list" where
  "windows_for np s = filter (\<lambda>w. storage_path (win_wallet w) = np) (windows s)"

text \<open>A sequence of \<open>start_new_window\<close> calls, each with its own collaborator answers.\<close>

fun start_new_windows :: "(env \<times> string \<times> string option) list \<Rightarrow> gui \<Rightarrow> gui" where
  "start_new_windows [] s = s"
| "start_new_windows ((env, p, uri) # cs) s =
     start_new_windows cs (snd (start_new_window env (Some p) uri s))"

text \<open>A concrete environment, configuration and constructed shell.\<close>

definition demo_env :: env where
  "demo_env =
     \<lparr>standardize_path = (\<lambda>p. p), get_wallet_path = ''/wallets/default_wallet'',
      load_wallet = (\<lambda>p. case p of None \<Rightarrow> Inl (Exc TypeError ''path'')
                           | Some q \<Rightarrow> Inr (Some \<lparr>storage_path = q, hardware = False\<rparr>)),
      stop_wallet = (\<lambda>p. None), wallet_folder = Inr ''/wallets'',
      get_new_wallet_name = (\<lambda>d. Inr ''wallet_1''),
      path_join = (\<lambda>d f. d @ ''/'' @ f),
      run_and_get_wallet = (\<lambda>p. Inr None), wizard_init_network = None,
      qdarkstyle_import = None, qdarkstyle_load_stylesheet = None,
      qdarkstyle_version = Inr [2, 6, 8]\<rparr>"

definition demo_config :: config where
  "demo_config = \<lparr>cfg_dark_icon = None, cfg_auto_update_check = None,
     cfg_qt_gui_color_theme = None, cfg_auto_connect = Some True, cfg_url = None\<rparr>"

definition demo_gui :: gui where
  "demo_gui = ElectrumGui_init demo_env demo_config True 0"

text \<open>The constructed shell after opening the wallet at \<open>/w1\<close>.\<close>

definition demo_wallet :: wallet where
  "demo_wallet = \<lparr>storage_path = ''/w1'', hardware = False\<rparr>"

definition demo_window :: window where
  "demo_window = \<lparr>wid = 0, win_wallet = demo_wallet\<rparr>"

definition demo_gui_w1 :: gui where
  "demo_gui_w1 = snd (start_new_window demo_env (Some ''/w1'') None demo_gui)"

text \<open>Environments in which loading fails, and in which the wallet folder is missing too.\<close>

definition failing_env :: env where
  "failing_env = demo_env\<lparr>load_wallet := (\<lambda>p. Inl (Exc OtherError ''cannot read wallet file''))\<rparr>"

definition no_folder_env :: env where
  "no_folder_env = failing_env\<lparr>wallet_folder := Inl (Exc FileNotFoundError ''wallets'')\<rparr>"

text \<open>An environment whose daemon loads a hardware wallet.\<close>

definition hardware_wallet :: wallet where
  "hardware_wallet = \<lparr>storage_path = ''/hw'', hardware = True\<rparr>"

definition hardware_env :: env where
  "hardware_env = demo_env\<lparr>load_wallet := (\<lambda>p. Inr (Some hardware_wallet))\<rparr>"

text \<open>\<open>config.get("dark_icon", False)\<close>\<close>

definition config_get_dark_icon :: "gui \<Rightarrow> bool" where
  "config_get_dark_icon s = (case cfg_dark_icon (config s) of None \<Rightarrow> False | Some b \<Rightarrow> b)"




text \<open>The shell constructed offline, and a shell whose configuration asks for the dark theme.\<close>

definition offline_gui :: gui where
  "offline_gui = ElectrumGui_init demo_env demo_config False 0"

definition dark_gui :: gui where
  "dark_gui = demo_gui\<lparr>config := demo_config\<lparr>cfg_qt_gui_color_theme := Some ''dark''\<rparr>\<rparr>"

text \<open>An environment in which \<open>qdarkstyle\<close> has no \<open>__version__\<close>.\<close>

definition no_version_env :: env where
  "no_version_env = demo_env\<lparr>qdarkstyle_version := Inl (Exc AttributeError ''__version__'')\<rparr>"

text \<open>An environment in which the user cancels the network wizard, and a shell that runs it.\<close>

definition cancel_env :: env where
  "cancel_env = demo_env\<lparr>wizard_init_network := Some (Exc UserCancelled [])\<rparr>"

definition first_run_gui :: gui where
  "first_run_gui = ElectrumGui_init demo_env (demo_config\<lparr>cfg_auto_connect := None\<rparr>) True 0"

text \<open>What the timeout slot appends before re-arming: the skip notice or the check.\<close>

definition slot_events :: "bool \<Rightarrow> bool \<Rightarrow> nat \<Rightarrow> event list" where
  "slot_events net recently t =
     (if \<not> net then [Log LogOffline] else if \<not> recently then [DoCheck t] else [])"

text \<open>The scheduler runs with the hourly interval, its countdown started at \<open>t\<close>.\<close>

definition steady :: "nat \<Rightarrow> gui \<Rightarrow> bool" where
  "steady t s \<longleftrightarrow>
     update_checker_timer s =
       \<lparr>t_active = True, t_interval = 3600000, t_first_run = False, t_started = t\<rparr>"

section \<open>Properties\<close>

subsection \<open>Traces\<close>

lemma emit_fields [simp]:
  "config (emit e s) = config s" "network (emit e s) = network s"
  "windows (emit e s) = windows s" "next_wid (emit e s) = next_wid s"
  "dark_icon (emit e s) = dark_icon s" "timer_active (emit e s) = timer_active s"
  "update_checker_timer (emit e s) = update_checker_timer s"
  "quit_on_last_window_closed (emit e s) = quit_on_last_window_closed s"
  "clock (emit e s) = clock s" "trace (emit e s) = trace s @ [e]"
  by (simp_all add: emit_def)

lemma emits_fields [simp]:
  "config (emits es s) = config s" "network (emits es s) = network s"
  "windows (emits es s) = windows s" "next_wid (emits es s) = next_wid s"
  "dark_icon (emits es s) = dark_icon s" "timer_active (emits es s) = timer_active s"
  "update_checker_timer (emits es s) = update_checker_timer s"
  "quit_on_last_window_closed (emits es s) = quit_on_last_window_closed s"
  "clock (emits es s) = clock s" "trace (emits es s) = trace s @ es"
  by (simp_all add: emits_def)

lemma emit_emits: "emit e s = emits [e] s"
  by (simp add: emit_def emits_def)

lemma emits_emits: "emits es2 (emits es1 s) = emits (es1 @ es2) s"
  by (simp add: emits_def)

lemma emits_Nil: "emits [] s = s"
  by (simp add: emits_def)

lemma emits_windows_update:
  "(emits es s)\<lparr>windows := ws, next_wid := n\<rparr> = emits es (s\<lparr>windows := ws, next_wid := n\<rparr>)"
  by (simp add: emits_def)

lemma new_events_emits: "trace s0 = trace s \<Longrightarrow> new_events s (emits es s0) = es"
  by (simp add: new_events_def)

subsection \<open>The wallet-opening flow, step by step\<close>

lemma slp_warn_eq:
  "slp_warn_if_wallet_not_compat env wal True s = (hardware wal, emits (slp_events wal) s)"
  by (simp add: slp_warn_if_wallet_not_compat_def slp_events_def warning_def emit_def emits_def
      split: option.splits)

lemma reject_hardware_eq:
  "reject_hardware env wal s =
     (if hardware wal then None else Some wal, emits (slp_events wal) s)"
  by (simp add: reject_hardware_def slp_warn_eq)

lemma load_error_eq: "load_error e s = emits (load_error_events e) s"
  by (simp add: load_error_def load_error_events_def warning_def emit_def emits_def)

lemma load_failed_eq:
  "load_failed env e s =
     (if windows s \<noteq> [] then (Inl e, emits [Log (LogRepr e)] s)
      else (case get_new_wallet_path env of
              Inl e2 \<Rightarrow> Inl e2
            | Inr np \<Rightarrow> Inr (Some np, None),
            emits [Log (LogRepr e), NewWalletPath] s))"
  by (simp add: load_failed_def Let_def emit_def emits_def split: sum.splits)

lemma run_wizard_raises:
  "run_and_get_wallet env p = Inl e \<Longrightarrow>
   run_wizard env p s =
     (if exc_class e = UserCancelled then (Inr None, emits [WizardRun p, WizardTerminate, GcCollect] s)
      else if exc_class e = GoBack then
        (Inr None, emits [WizardRun p, Log (LogGoBack e), WizardTerminate, GcCollect] s)
      else (Inl e, emits [WizardRun p, WizardTerminate, GcCollect] s))"
  by (simp add: run_wizard_def Let_def emit_def emits_def)

lemma run_wizard_none:
  "run_and_get_wallet env p = Inr None \<Longrightarrow>
   run_wizard env p s = (Inr None, emits [WizardRun p, WizardTerminate, GcCollect] s)"
  by (simp add: run_wizard_def Let_def emit_def emits_def)

lemma run_wizard_wallet:
  "run_and_get_wallet env p = Inr (Some wal) \<Longrightarrow>
   run_wizard env p s =
     (Inr (Some wal),
      emits [WizardRun p, WizardTerminate, GcCollect, StartThreads wal, AddWallet wal] s)"
  by (simp add: run_wizard_def Let_def emit_def emits_def)

lemma wizard_flow_eq:
  "(case run_wizard env p s of
      (Inl e, s2) \<Rightarrow> (None, load_error e s2)
    | (Inr None, s2) \<Rightarrow> (None, s2)
    | (Inr (Some wal), s2) \<Rightarrow> reject_hardware env wal s2) =
   (wizard_result env p, emits (wizard_events env p) s)"
proof (cases "run_and_get_wallet env p")
  case (Inl e)
  show ?thesis
    by (simp add: run_wizard_raises[OF Inl] load_error_eq wizard_result_def
          wizard_events_def emits_emits Inl)
next
  case (Inr r)
  show ?thesis
  proof (cases r)
    case None
    show ?thesis
      using Inr None
      by (simp add: run_wizard_none wizard_result_def wizard_events_def)
  next
    case (Some wal)
    show ?thesis
      using Inr Some
      by (simp add: run_wizard_wallet reject_hardware_eq wizard_result_def wizard_events_def
            emits_emits)
  qed
qed

lemma failed_flow_eq:
  "(case load_failed env e s of
      (Inl e, s1) \<Rightarrow> (None, load_error e s1)
    | (Inr (path1, Some wal), s1) \<Rightarrow> reject_hardware env wal s1
    | (Inr (path1, None), s1) \<Rightarrow>
        (case run_wizard env path1 s1 of
           (Inl e, s2) \<Rightarrow> (None, load_error e s2)
         | (Inr None, s2) \<Rightarrow> (None, s2)
         | (Inr (Some wal), s2) \<Rightarrow> reject_hardware env wal s2)) =
   (failed_result env (windows s \<noteq> []), emits (failed_events env e (windows s \<noteq> [])) s)"
proof (cases "windows s \<noteq> []")
  case True
  then show ?thesis
    by (simp add: load_failed_eq load_error_eq failed_result_def failed_events_def emits_emits)
next
  case False
  show ?thesis
  proof (cases "get_new_wallet_path env")
    case (Inl e2)
    show ?thesis
      using False Inl
      by (simp add: load_failed_eq load_error_eq failed_result_def failed_events_def emits_emits)
  next
    case (Inr np)
    show ?thesis
      using False Inr
      by (simp add: load_failed_eq wizard_flow_eq failed_result_def failed_events_def
            emits_emits)
  qed
qed

lemma open_wallet_eq:
  "open_wallet env p s =
     (open_result env p (windows s \<noteq> []), emits (open_events env p (windows s \<noteq> [])) s)"
proof (cases "load_wallet env p")
  case (Inl e)
  have "open_wallet env p s =
          (failed_result env (windows (emit (LoadWallet p) s) \<noteq> []),
           emits (failed_events env e (windows (emit (LoadWallet p) s) \<noteq> []))
             (emit (LoadWallet p) s))"
    unfolding open_wallet_def try_load_def Let_def by (simp add: Inl failed_flow_eq)
  then show ?thesis
    by (simp add: open_result_def open_events_def Inl emit_emits emits_emits)
next
  case (Inr r)
  show ?thesis
  proof (cases r)
    case None
    have "open_wallet env p s =
            (wizard_result env p, emits (wizard_events env p) (emit (LoadWallet p) s))"
      unfolding open_wallet_def try_load_def Let_def by (simp add: Inr None wizard_flow_eq)
    then show ?thesis
      by (simp add: open_result_def open_events_def Inr None emit_emits emits_emits)
  next
    case (Some wal)
    show ?thesis
    proof (cases "hardware wal")
      case True
      let ?e = "Exc RuntimeWarning ''User doesn't want to use this wallet''"
      let ?s1 = "emits (slp_events wal) (emit (LoadWallet p) s)"
      have "open_wallet env p s =
              (failed_result env (windows ?s1 \<noteq> []),
               emits (failed_events env ?e (windows ?s1 \<noteq> [])) ?s1)"
        unfolding open_wallet_def try_load_def Let_def
        by (simp add: Inr Some True slp_warn_eq failed_flow_eq)
      then show ?thesis
        by (simp add: open_result_def open_events_def Inr Some True emit_emits emits_emits)
    next
      case False
      have "open_wallet env p s = (Some wal, emit (LoadWallet p) s)"
        unfolding open_wallet_def try_load_def Let_def
        by (simp add: Inr Some False slp_warn_eq reject_hardware_eq slp_events_def emits_Nil)
      then show ?thesis
        by (simp add: open_result_def open_events_def Inr Some False emit_emits)
    qed
  qed
qed

subsection \<open>The three outcomes of \<open>start_new_window\<close>\<close>

lemma raise_window_eq: "raise_window w uri s = (Some w, emits (raise_events w uri) s)"
  by (simp add: raise_window_def raise_events_def uri_events_def Let_def emit_emits
        emits_emits emits_Nil split: option.splits)

lemma last_wallet_if_none_eq:
  "last_wallet_if_none env path s =
     (fst (last_wallet_if_none env path s), emits (last_wallet_events path s) s)"
  by (simp add: last_wallet_if_none_def last_wallet_events_def emits_Nil)

lemma create_window_eq:
  "create_window_for_wallet wal s =
     (new_window s wal,
      emits (created_events s wal)
        (s\<lparr>windows := windows s @ [new_window s wal], next_wid := Suc (next_wid s)\<rparr>))"
  by (simp add: create_window_for_wallet_def build_tray_menu_def Let_def emit_def emits_def
        new_window_def created_events_def)

lemma start_new_window_unfold:
  "start_new_window env path uri s =
     (case scan_windows (scan_path env path s) (windows s) of
        Some w \<Rightarrow>
          raise_window w uri (emit (BringToTop (wid w)) (emits (last_wallet_events path s) s))
      | None \<Rightarrow>
          (case open_wallet env (scan_path env path s) (emits (last_wallet_events path s) s) of
             (None, s2) \<Rightarrow> (None, s2)
           | (Some wal, s2) \<Rightarrow>
               (case create_window_for_wallet wal s2 of (w, s3) \<Rightarrow> raise_window w uri s3)))"
proof -
  obtain p1 s1 where l: "last_wallet_if_none env path s = (p1, s1)"
    by (cases "last_wallet_if_none env path s")
  have "s1 = emits (last_wallet_events path s) s" "scan_path env path s = standardize env p1"
    using last_wallet_if_none_eq[of env path s] l by (simp_all add: scan_path_def)
  then show ?thesis
    by (simp add: start_new_window_def l Let_def split: option.splits)
qed

lemma start_new_window_found:
  assumes "scan_windows (scan_path env path s) (windows s) = Some w"
  shows "start_new_window env path uri s =
           (Some w, emits (last_wallet_events path s @ BringToTop (wid w) # raise_events w uri) s)"
  by (simp add: start_new_window_unfold assms raise_window_eq emit_emits emits_emits)

lemma start_new_window_failed:
  assumes "scan_windows (scan_path env path s) (windows s) = None"
    and "open_result env (scan_path env path s) (windows s \<noteq> []) = None"
  shows "start_new_window env path uri s =
           (None, emits (last_wallet_events path s @
                         open_events env (scan_path env path s) (windows s \<noteq> [])) s)"
  by (simp add: start_new_window_unfold assms open_wallet_eq emits_emits)

lemma start_new_window_created:
  assumes "scan_windows (scan_path env path s) (windows s) = None"
    and "open_result env (scan_path env path s) (windows s \<noteq> []) = Some wal"
  shows "start_new_window env path uri s =
           (Some (new_window s wal),
            emits (last_wallet_events path s @
                   open_events env (scan_path env path s) (windows s \<noteq> []) @
                   created_events s wal @ raise_events (new_window s wal) uri)
              (s\<lparr>windows := windows s @ [new_window s wal], next_wid := Suc (next_wid s)\<rparr>))"
  by (simp add: start_new_window_unfold assms open_wallet_eq create_window_eq raise_window_eq
        emits_emits emits_windows_update new_window_def created_events_def)


lemma start_new_window_cases:
  obtains (found) w where
      "scan_windows (scan_path env path s) (windows s) = Some w"
      "start_new_window env path uri s =
         (Some w, emits (last_wallet_events path s @ BringToTop (wid w) # raise_events w uri) s)"
  | (failed)
      "scan_windows (scan_path env path s) (windows s) = None"
      "open_result env (scan_path env path s) (windows s \<noteq> []) = None"
      "start_new_window env path uri s =
         (None, emits (last_wallet_events path s @
                       open_events env (scan_path env path s) (windows s \<noteq> [])) s)"
  | (created) wal where
      "scan_windows (scan_path env path s) (windows s) = None"
      "open_result env (scan_path env path s) (windows s \<noteq> []) = Some wal"
      "start_new_window env path uri s =
         (Some (new_window s wal),
          emits (last_wallet_events path s @
                 open_events env (scan_path env path s) (windows s \<noteq> []) @
                 created_events s wal @ raise_events (new_window s wal) uri)
            (s\<lparr>windows := windows s @ [new_window s wal], next_wid := Suc (next_wid s)\<rparr>))"
proof (cases "scan_windows (scan_path env path s) (windows s)")
  case (Some w)
  then show ?thesis using start_new_window_found[OF Some] by (rule found)
next
  case None
  show ?thesis
  proof (cases "open_result env (scan_path env path s) (windows s \<noteq> [])")
    case n: None
    show ?thesis using None n start_new_window_failed[OF None n] by (rule failed)
  next
    case (Some wal)
    show ?thesis using None Some start_new_window_created[OF None Some] by (rule created)
  qed
qed

subsection \<open>Facts about the appended events\<close>

lemma open_event_start_event: "open_event e \<Longrightarrow> start_event e"
  by (cases e) simp_all

lemma list_all_open_start: "list_all open_event es \<Longrightarrow> list_all start_event es"
  by (induction es) (auto intro: open_event_start_event)

lemma list_all_start_raise [simp]: "list_all start_event (raise_events w uri)"
  by (simp add: raise_events_def uri_events_def split: option.splits)

lemma list_all_start_created [simp]: "list_all start_event (created_events s wal)"
  by (simp add: created_events_def)

lemma list_all_open_slp [simp]: "list_all open_event (slp_events wal)"
  by (simp add: slp_events_def)

lemma list_all_open_load_error [simp]: "list_all open_event (load_error_events e)"
  by (simp add: load_error_events_def)

lemma list_all_open_wizard [simp]: "list_all open_event (wizard_events env p)"
  by (simp add: wizard_events_def split: sum.splits option.splits)

lemma list_all_open_failed [simp]: "list_all open_event (failed_events env e busy)"
  by (simp add: failed_events_def split: sum.splits)

lemma list_all_open_events [simp]: "list_all open_event (open_events env p busy)"
  by (simp add: open_events_def split: sum.splits option.splits)

lemma wizard_result_not_hardware: "wizard_result env p = Some wal \<Longrightarrow> \<not> hardware wal"
  by (auto simp: wizard_result_def split: sum.splits option.splits if_splits)

lemma failed_result_not_hardware: "failed_result env busy = Some wal \<Longrightarrow> \<not> hardware wal"
  by (auto simp: failed_result_def split: sum.splits if_splits dest: wizard_result_not_hardware)

lemma open_result_not_hardware: "open_result env p busy = Some wal \<Longrightarrow> \<not> hardware wal"
  by (auto simp: open_result_def split: sum.splits option.splits if_splits
           dest: wizard_result_not_hardware failed_result_not_hardware)

text \<open>What a call does to the registry, and that it touches nothing else but the trace.\<close>

lemma start_new_window_windows:
  "windows (snd (start_new_window env path uri s)) = windows s \<or>
   (scan_windows (scan_path env path s) (windows s) = None \<and>
    (\<exists>wal. \<not> hardware wal \<and>
       windows (snd (start_new_window env path uri s)) = windows s @ [new_window s wal]))"
proof (cases rule: start_new_window_cases[of env path s uri])
  case (found w)
  then show ?thesis by simp
next
  case failed
  then show ?thesis by simp
next
  case (created wal)
  then show ?thesis using open_result_not_hardware[OF created(2)] by auto
qed

lemma start_new_window_frame:
  "config (snd (start_new_window env path uri s)) = config s"
  "network (snd (start_new_window env path uri s)) = network s"
  "dark_icon (snd (start_new_window env path uri s)) = dark_icon s"
  "timer_active (snd (start_new_window env path uri s)) = timer_active s"
  "update_checker_timer (snd (start_new_window env path uri s)) = update_checker_timer s"
  "quit_on_last_window_closed (snd (start_new_window env path uri s)) =
     quit_on_last_window_closed s"
  "clock (snd (start_new_window env path uri s)) = clock s"
  by (cases rule: start_new_window_cases[of env path s uri]; simp)+

lemma start_new_window_new_events:
  "\<exists>es. list_all start_event es \<and>
     new_events s (snd (start_new_window env path uri s)) = last_wallet_events path s @ es"
proof (cases rule: start_new_window_cases[of env path s uri])
  case (found w)
  have "list_all start_event (BringToTop (wid w) # raise_events w uri)" by simp
  then show ?thesis using found(2) by (auto simp: new_events_emits)
next
  case failed
  have "list_all start_event (open_events env (scan_path env path s) (windows s \<noteq> []))"
    by (rule list_all_open_start) simp
  then show ?thesis using failed(3) by (auto simp: new_events_emits)
next
  case (created wal)
  have "list_all start_event (open_events env (scan_path env path s) (windows s \<noteq> []) @
          created_events s wal @ raise_events (new_window s wal) uri)"
    using list_all_open_start[OF list_all_open_events] by simp
  then show ?thesis using created(3) by (auto simp: new_events_emits)
qed

subsection \<open>The window scan\<close>

lemma scan_path_Some:
  "p \<noteq> [] \<Longrightarrow> scan_path env (Some p) s = Some (standardize_path env p)"
  by (simp add: scan_path_def last_wallet_if_none_def standardize_def)

lemma scan_path_falsy:
  "\<not> truthy path \<Longrightarrow> windows s \<noteq> [] \<Longrightarrow> \<not> truthy (scan_path env path s)"
  by (cases path) (auto simp: scan_path_def last_wallet_if_none_def standardize_def)

lemma scan_windows_None:
  "scan_windows path ws = None \<Longrightarrow>
     filter (\<lambda>w. Some (storage_path (win_wallet w)) = path) ws = []"
  by (induction ws) (auto split: if_splits)

lemma scan_windows_find:
  "np \<noteq> [] \<Longrightarrow>
     scan_windows (Some np) ws = find (\<lambda>w. storage_path (win_wallet w) = np) ws"
  by (induction ws) auto


subsection \<open>Concrete states\<close>

lemma demo_gui_eq:
  "demo_gui =
     \<lparr>config = demo_config, network = True, windows = [], next_wid = 0, dark_icon = False,
      timer_active = False,
      update_checker_timer =
        \<lparr>t_active = True, t_interval = 10000, t_first_run = True, t_started = 0\<rparr>,
      quit_on_last_window_closed = True, clock = 0,
      trace = [StylePatch False None, ColorSchemeUpdate False, SetTrayIcon False,
               BuildTrayMenu [], Log (LogInterval 10), RunHook ''init_qt'',
               ColorSchemeUpdate False]\<rparr>"
  by (simp add: demo_gui_def ElectrumGui_init_def Let_def set_dark_theme_if_needed_def
      build_tray_menu_def has_auto_update_check_def start_auto_update_timer_def demo_config_def
      emit_def emits_def)

lemma demo_gui_windows: "windows demo_gui = []"
  by (simp add: demo_gui_eq)

lemma demo_open_w1:
  "start_new_window demo_env (Some ''/w1'') None demo_gui =
     (Some demo_window,
      emits [LoadWallet (Some ''/w1''), CreateWindow 0 demo_wallet, BuildTrayMenu [0],
             RunHook ''on_new_window'', BringToTop 0, SetWindowState 0, ActivateWindow 0]
        (demo_gui\<lparr>windows := [demo_window], next_wid := 1\<rparr>))"
proof -
  have sp: "scan_path demo_env (Some ''/w1'') demo_gui = Some ''/w1''"
    by (simp add: scan_path_Some demo_env_def)
  have sc: "scan_windows (scan_path demo_env (Some ''/w1'') demo_gui) (windows demo_gui) = None"
    by (simp add: demo_gui_windows)
  have r: "open_result demo_env (scan_path demo_env (Some ''/w1'') demo_gui)
             (windows demo_gui \<noteq> []) = Some demo_wallet"
    unfolding sp by (simp add: open_result_def demo_env_def demo_wallet_def)
  have e: "open_events demo_env (Some ''/w1'') False = [LoadWallet (Some ''/w1'')]"
    by (simp add: open_events_def demo_env_def)
  show ?thesis
    using start_new_window_created[OF sc r, of None] unfolding sp
    by (simp add: e demo_gui_windows last_wallet_events_def created_events_def
          raise_events_def uri_events_def new_window_def demo_window_def demo_gui_eq)
qed

lemma demo_gui_w1_windows: "windows demo_gui_w1 = [demo_window]"
  by (simp add: demo_gui_w1_def demo_open_w1)


section \<open>Opening windows\<close>

lemma start_new_window_windows_for:
  assumes "p \<noteq> []" and "standardize_path env p = np"
    and "length (windows_for np s) \<le> 1"
  shows "length (windows_for np (snd (start_new_window env (Some p) uri s))) \<le> 1"
proof -
  have sp: "scan_path env (Some p) s = Some np"
    using assms(1,2) by (simp add: scan_path_Some)
  from start_new_window_windows[of env "Some p" uri s]
  show ?thesis
  proof
    assume "windows (snd (start_new_window env (Some p) uri s)) = windows s"
    then show ?thesis using assms(3) by (simp add: windows_for_def)
  next
    assume "scan_windows (scan_path env (Some p) s) (windows s) = None \<and>
      (\<exists>wal. \<not> hardware wal \<and>
         windows (snd (start_new_window env (Some p) uri s)) = windows s @ [new_window s wal])"
    then obtain wal where n: "scan_windows (Some np) (windows s) = None"
      and w: "windows (snd (start_new_window env (Some p) uri s)) = windows s @ [new_window s wal]"
      unfolding sp by blast
    have "windows_for np s = []"
      using scan_windows_None[OF n] by (simp add: windows_for_def)
    then show ?thesis using w by (simp add: windows_for_def)
  qed
qed

lemma start_new_windows_windows_for:
  "\<forall>(env, p, uri) \<in> set calls. p \<noteq> [] \<and> standardize_path env p = np \<Longrightarrow>
   length (windows_for np s) \<le> 1 \<Longrightarrow>
   length (windows_for np (start_new_windows calls s)) \<le> 1"
proof (induction calls arbitrary: s)
  case Nil
  then show ?case by simp
next
  case (Cons c calls)
  obtain env p uri where c: "c = (env, p, uri)" by (cases c)
  have "p \<noteq> []" "standardize_path env p = np"
    using Cons.prems(1) c by auto
  then have "length (windows_for np (snd (start_new_window env (Some p) uri s))) \<le> 1"
    using Cons.prems(2) by (rule start_new_window_windows_for)
  then show ?case using Cons.IH Cons.prems(1) c by simp
qed

lemma start_new_window_focus:
  assumes "p \<noteq> []" and "standardize_path env p \<noteq> []"
    and "find (\<lambda>w. storage_path (win_wallet w) = standardize_path env p) (windows s) = Some w"
  shows "start_new_window env (Some p) uri s =
           (Some w, emits (BringToTop (wid w) # uri_events w uri @
              [BringToTop (wid w), SetWindowState (wid w), ActivateWindow (wid w)]) s)"
proof -
  have sc: "scan_windows (scan_path env (Some p) s) (windows s) = Some w"
    using assms by (simp add: scan_path_Some scan_windows_find)
  show ?thesis
    using start_new_window_found[OF sc, of uri] assms(1)
    by (simp add: last_wallet_events_def raise_events_def)
qed

text \<open>
  Claim C1. Take any sequence of \<open>start_new_window\<close> calls whose paths are non-empty
  and standardize to the same path \<open>np\<close>, whatever the collaborators answer in each
  call. If at most one window for \<open>np\<close> is open before, at most one is open after every
  prefix of the sequence. And whenever a window of the wallet stored at \<open>np\<close> is open,
  each such call returns the first such window, brings it to the foreground (twice),
  hands it the URI if there is one, and changes nothing but the trace: no window is
  created and the registry does not grow. (\<open>np\<close> is taken to be non-empty, as a
  standardized path is.)
\<close>

theorem start_new_window_at_most_one:
  assumes "\<forall>(env, p, uri) \<in> set calls. p \<noteq> [] \<and> standardize_path env p = np"
    and "np \<noteq> []"
    and "length (windows_for np s) \<le> 1"
  shows "(\<forall>n. length (windows_for np (start_new_windows (take n calls) s)) \<le> 1) \<and>
         (\<forall>(env, p, uri) \<in> set calls. \<forall>s0 w.
            find (\<lambda>w. storage_path (win_wallet w) = np) (windows s0) = Some w \<longrightarrow>
              start_new_window env (Some p) uri s0 =
                (Some w, emits (BringToTop (wid w) # uri_events w uri @
                   [BringToTop (wid w), SetWindowState (wid w), ActivateWindow (wid w)]) s0))"
proof (intro conjI allI)
  fix n
  have "\<forall>(env, p, uri) \<in> set (take n calls). p \<noteq> [] \<and> standardize_path env p = np"
    using assms(1) by (meson in_set_takeD)
  then show "length (windows_for np (start_new_windows (take n calls) s)) \<le> 1"
    using assms(3) by (rule start_new_windows_windows_for)
next
  show "\<forall>(env, p, uri) \<in> set calls. \<forall>s0 w.
            find (\<lambda>w. storage_path (win_wallet w) = np) (windows s0) = Some w \<longrightarrow>
              start_new_window env (Some p) uri s0 =
                (Some w, emits (BringToTop (wid w) # uri_events w uri @
                   [BringToTop (wid w), SetWindowState (wid w), ActivateWindow (wid w)]) s0)"
    using assms(1,2) by (auto intro!: start_new_window_focus)
qed

theorem start_new_window_at_most_one_witness:
  "length (windows_for ''/w1''
     (start_new_windows [(demo_env, ''/w1'', None), (demo_env, ''/w1'', Some ''bitcoincash:q'')]
        demo_gui)) \<le> 1 \<and>
   start_new_window demo_env (Some ''/w1'') None demo_gui_w1 =
     (Some demo_window,
      emits [BringToTop 0, BringToTop 0, SetWindowState 0, ActivateWindow 0] demo_gui_w1)"
proof -
  let ?calls = "[(demo_env, ''/w1'', None), (demo_env, ''/w1'', Some ''bitcoincash:q'')]"
  have h1: "\<forall>(env, p, uri) \<in> set ?calls. p \<noteq> [] \<and> standardize_path env p = ''/w1''"
    by (simp add: demo_env_def)
  have h2: "''/w1'' \<noteq> []" by simp
  have h3: "length (windows_for ''/w1'' demo_gui) \<le> 1"
    by (simp add: windows_for_def demo_gui_windows)
  note t = start_new_window_at_most_one[OF h1 h2 h3]
  from t have "\<forall>n. length (windows_for ''/w1'' (start_new_windows (take n ?calls) demo_gui)) \<le> 1"
    by (rule conjunct1)
  from this[rule_format, of 2]
  have a: "length (windows_for ''/w1'' (start_new_windows ?calls demo_gui)) \<le> 1" by simp
  have f: "find (\<lambda>w. storage_path (win_wallet w) = ''/w1'') (windows demo_gui_w1) = Some demo_window"
    by (simp add: demo_gui_w1_windows demo_window_def demo_wallet_def)
  from t f have "start_new_window demo_env (Some ''/w1'') None demo_gui_w1 =
     (Some demo_window, emits (BringToTop (wid demo_window) # uri_events demo_window None @
        [BringToTop (wid demo_window), SetWindowState (wid demo_window),
         ActivateWindow (wid demo_window)]) demo_gui_w1)"
    by auto
  then show ?thesis using a by (simp add: uri_events_def demo_window_def)
qed

text \<open>
  Claim C10. Called with an empty path (\<open>None\<close> or the empty string) while a window is
  open, \<open>start_new_window\<close> returns the first window of the registry and changes
  nothing but the trace, to which it appends only the raising of that window (and the
  hand-over of the URI): the configuration is not consulted, no wallet is loaded, no
  window is created. The last-wallet path is asked of the configuration exactly when
  the path is empty and no window is open.
\<close>

theorem start_new_window_empty_path:
  "(\<not> truthy path \<and> windows s = w # ws \<longrightarrow>
      start_new_window env path uri s =
        (Some w, emits (BringToTop (wid w) # uri_events w uri @
           [BringToTop (wid w), SetWindowState (wid w), ActivateWindow (wid w)]) s)) \<and>
   (OpenLastWallet \<in> set (new_events s (snd (start_new_window env path uri s))) \<longleftrightarrow>
      \<not> truthy path \<and> windows s = []) \<and>
   (GetWalletPath \<in> set (new_events s (snd (start_new_window env path uri s))) \<longleftrightarrow>
      \<not> truthy path \<and> windows s = [])"
proof (intro conjI impI)
  assume a: "\<not> truthy path \<and> windows s = w # ws"
  then have "\<not> truthy (scan_path env path s)"
    by (simp add: scan_path_falsy)
  then have sc: "scan_windows (scan_path env path s) (windows s) = Some w"
    using a by simp
  show "start_new_window env path uri s =
        (Some w, emits (BringToTop (wid w) # uri_events w uri @
           [BringToTop (wid w), SetWindowState (wid w), ActivateWindow (wid w)]) s)"
    using start_new_window_found[OF sc, of uri] a
    by (simp add: last_wallet_events_def raise_events_def)
next
  from start_new_window_new_events[of s env path uri] obtain es where la: "list_all start_event es"
    and ne: "new_events s (snd (start_new_window env path uri s)) = last_wallet_events path s @ es"
    by blast
  have "OpenLastWallet \<notin> set es" "GetWalletPath \<notin> set es"
    using la by (auto simp: list_all_iff)
  then show "OpenLastWallet \<in> set (new_events s (snd (start_new_window env path uri s))) \<longleftrightarrow>
      \<not> truthy path \<and> windows s = []"
    and "GetWalletPath \<in> set (new_events s (snd (start_new_window env path uri s))) \<longleftrightarrow>
      \<not> truthy path \<and> windows s = []"
    using ne by (auto simp: last_wallet_events_def)
qed

theorem start_new_window_empty_path_witness:
  "\<not> truthy (Some []) \<and> windows demo_gui_w1 = [demo_window] \<and>
   start_new_window demo_env (Some []) (Some ''bitcoincash:q'') demo_gui_w1 =
     (Some demo_window,
      emits [BringToTop 0, PayToURI 0 ''bitcoincash:q'', BringToTop 0, SetWindowState 0,
             ActivateWindow 0] demo_gui_w1) \<and>
   OpenLastWallet \<notin> set (new_events demo_gui_w1
      (snd (start_new_window demo_env (Some []) (Some ''bitcoincash:q'') demo_gui_w1)))"
  using start_new_window_empty_path[of "Some []" demo_gui_w1 demo_window "[]" demo_env
      "Some ''bitcoincash:q''"]
  by (simp add: demo_gui_w1_windows uri_events_def demo_window_def new_events_emits)


subsection \<open>Load failures\<close>

lemma no_warning_raise [simp]: "list_all (\<lambda>ev. \<not> is_warning ev) (raise_events w uri)"
  by (simp add: raise_events_def uri_events_def split: option.splits)

lemma no_warning_created [simp]: "list_all (\<lambda>ev. \<not> is_warning ev) (created_events s wal)"
  by (simp add: created_events_def)

lemma no_warning_last_wallet [simp]:
  "list_all (\<lambda>ev. \<not> is_warning ev) (last_wallet_events path s)"
  by (simp add: last_wallet_events_def)

lemma no_warning_wizard:
  "wizard_quiet env p \<Longrightarrow> list_all (\<lambda>ev. \<not> is_warning ev) (wizard_events env p)"
  by (auto simp: wizard_quiet_def wizard_events_def slp_events_def
           split: sum.splits option.splits)

lemma wizard_events_Cons: "\<exists>t. wizard_events env p = WizardRun p # t"
  by (simp add: wizard_events_def)

lemma open_load_failed_busy:
  assumes "load_wallet env p = Inl e"
  shows "open_result env p True = None"
    and "open_events env p True =
           [LoadWallet p, Log (LogRepr e), Log (LogTraceback e),
            Warning (if str_contains ''2fa'' (exc_str e) then TwoFADlg
                     else CannotLoadDlg (exc_str e))]"
  using assms
  by (simp_all add: open_result_def open_events_def failed_result_def failed_events_def
        load_error_events_def)

lemma open_load_failed_idle:
  assumes "load_wallet env p = Inl e" and "get_new_wallet_path env = Inr np"
  shows "open_events env p False =
           [LoadWallet p, Log (LogRepr e), NewWalletPath] @ wizard_events env (Some np)"
  using assms by (simp add: open_events_def failed_events_def)

text \<open>
  Claim C2, as the code has it. \<open>daemon.load_wallet\<close> is reached when the scan finds
  no window, and raises \<open>e\<close>. If a window is open, the call returns without a window,
  leaves the registry as it was, and appends exactly: the load, the log line, the
  traceback and the error dialog; no wizard runs. If no window is open and
  \<open>get_new_wallet_path\<close> returns \<open>np\<close>, the call's events begin with the load, the log
  line, the generation of the fresh path and the wizard run on \<open>np\<close>, with no dialog
  before the wizard; and no dialog is shown at all unless the wizard itself raises an
  exception other than \<open>UserCancelled\<close> and \<open>GoBack\<close>, or hands back a hardware wallet.
\<close>

theorem start_new_window_load_failure:
  assumes "scan_windows (scan_path env path s) (windows s) = None"
    and "load_wallet env (scan_path env path s) = Inl e"
  shows "(windows s \<noteq> [] \<longrightarrow>
            start_new_window env path uri s =
              (None, emits [LoadWallet (scan_path env path s), Log (LogRepr e),
                            Log (LogTraceback e),
                            Warning (if str_contains ''2fa'' (exc_str e) then TwoFADlg
                                     else CannotLoadDlg (exc_str e))] s)) \<and>
         (windows s = [] \<longrightarrow>
            (\<forall>np. get_new_wallet_path env = Inr np \<longrightarrow>
               prefix (last_wallet_events path s @
                       [LoadWallet (scan_path env path s), Log (LogRepr e), NewWalletPath,
                        WizardRun (Some np)])
                 (new_events s (snd (start_new_window env path uri s))) \<and>
               (wizard_quiet env (Some np) \<longrightarrow>
                  list_all (\<lambda>ev. \<not> is_warning ev)
                    (new_events s (snd (start_new_window env path uri s))))))"
proof (intro conjI impI allI)
  assume busy: "windows s \<noteq> []"
  have r: "open_result env (scan_path env path s) (windows s \<noteq> []) = None"
    using open_load_failed_busy(1)[OF assms(2)] busy by simp
  show "start_new_window env path uri s =
          (None, emits [LoadWallet (scan_path env path s), Log (LogRepr e),
                        Log (LogTraceback e),
                        Warning (if str_contains ''2fa'' (exc_str e) then TwoFADlg
                                 else CannotLoadDlg (exc_str e))] s)"
    using start_new_window_failed[OF assms(1) r, of uri] busy
      open_load_failed_busy(2)[OF assms(2)]
    by (simp add: last_wallet_events_def)
next
  fix np
  assume idle: "windows s = []" and np: "get_new_wallet_path env = Inr np"
  obtain t where t: "wizard_events env (Some np) = WizardRun (Some np) # t"
    using wizard_events_Cons by blast
  have oe: "open_events env (scan_path env path s) (windows s \<noteq> []) =
              [LoadWallet (scan_path env path s), Log (LogRepr e), NewWalletPath,
               WizardRun (Some np)] @ t"
    using open_load_failed_idle[OF assms(2) np] idle t by simp
  obtain more where ne: "new_events s (snd (start_new_window env path uri s)) =
      last_wallet_events path s @ open_events env (scan_path env path s) (windows s \<noteq> []) @ more"
    and nw: "list_all (\<lambda>ev. \<not> is_warning ev) more"
  proof (cases rule: start_new_window_cases[of env path s uri])
    case (found w)
    then show ?thesis using assms(1) by simp
  next
    case failed
    show ?thesis
      using failed(3) by (intro that[of "[]"]) (simp_all add: new_events_emits)
  next
    case (created wal)
    show ?thesis
      using created(3)
      by (intro that[of "created_events s wal @ raise_events (new_window s wal) uri"])
         (simp_all add: new_events_emits)
  qed
  show "prefix (last_wallet_events path s @
                [LoadWallet (scan_path env path s), Log (LogRepr e), NewWalletPath,
                 WizardRun (Some np)])
          (new_events s (snd (start_new_window env path uri s)))"
    unfolding ne oe by simp
  assume "wizard_quiet env (Some np)"
  from no_warning_wizard[OF this]
  have "list_all (\<lambda>ev. \<not> is_warning ev) t" by (simp add: t)
  then show "list_all (\<lambda>ev. \<not> is_warning ev)
               (new_events s (snd (start_new_window env path uri s)))"
    unfolding ne oe using nw by simp
qed

lemma demo_gui_w1_scan:
  "p \<noteq> ''/w1'' \<Longrightarrow> p \<noteq> [] \<Longrightarrow> scan_windows (Some p) (windows demo_gui_w1) = None"
  by (auto simp: demo_gui_w1_windows demo_window_def demo_wallet_def)

lemma failing_env_fields:
  "standardize_path failing_env = (\<lambda>p. p)"
  "load_wallet failing_env p = Inl (Exc OtherError ''cannot read wallet file'')"
  "get_new_wallet_path failing_env = Inr ''/wallets/wallet_1''"
  "run_and_get_wallet failing_env p = Inr None"
  by (simp_all add: failing_env_def demo_env_def get_new_wallet_path_def get_wallet_folder_def)

theorem start_new_window_load_failure_witness:
  "start_new_window failing_env (Some ''/bad'') None demo_gui_w1 =
     (None, emits [LoadWallet (Some ''/bad''),
                   Log (LogRepr (Exc OtherError ''cannot read wallet file'')),
                   Log (LogTraceback (Exc OtherError ''cannot read wallet file'')),
                   Warning (CannotLoadDlg ''cannot read wallet file'')] demo_gui_w1) \<and>
   prefix [LoadWallet (Some ''/bad''),
           Log (LogRepr (Exc OtherError ''cannot read wallet file'')), NewWalletPath,
           WizardRun (Some ''/wallets/wallet_1'')]
     (new_events demo_gui (snd (start_new_window failing_env (Some ''/bad'') None demo_gui))) \<and>
   list_all (\<lambda>ev. \<not> is_warning ev)
     (new_events demo_gui (snd (start_new_window failing_env (Some ''/bad'') None demo_gui)))"
proof -
  let ?e = "Exc OtherError ''cannot read wallet file''"
  have sp1: "scan_path failing_env (Some ''/bad'') demo_gui_w1 = Some ''/bad''"
    and sp0: "scan_path failing_env (Some ''/bad'') demo_gui = Some ''/bad''"
    by (simp_all add: scan_path_Some failing_env_fields)
  have a1: "scan_windows (scan_path failing_env (Some ''/bad'') demo_gui_w1)
              (windows demo_gui_w1) = None"
    unfolding sp1 by (simp add: demo_gui_w1_scan)
  have a0: "scan_windows (scan_path failing_env (Some ''/bad'') demo_gui)
              (windows demo_gui) = None"
    by (simp add: demo_gui_windows)
  have l1: "load_wallet failing_env (scan_path failing_env (Some ''/bad'') demo_gui_w1) = Inl ?e"
    and l0: "load_wallet failing_env (scan_path failing_env (Some ''/bad'') demo_gui) = Inl ?e"
    by (simp_all add: failing_env_fields)
  have q: "wizard_quiet failing_env (Some ''/wallets/wallet_1'')"
    by (simp add: wizard_quiet_def failing_env_fields)
  have c: "\<not> str_contains ''2fa'' ''cannot read wallet file''" by simp
  show ?thesis
    using start_new_window_load_failure[OF a1 l1, of None]
      start_new_window_load_failure[OF a0 l0, of None] q c
    unfolding sp1 sp0
    by (simp add: demo_gui_w1_windows demo_gui_windows failing_env_fields
          last_wallet_events_def)
qed

text \<open>
  Claim C2 as stated fails: no window is open, loading the wallet at \<open>/bad\<close> raises, and
  \<open>get_new_wallet_path\<close> raises \<open>FileNotFoundError\<close> as its docstring says it may. The
  outer handler then shows the error dialog and the wizard never runs.
\<close>

theorem load_failure_without_wizard_counterexample:
  "windows demo_gui = [] \<and>
   load_wallet no_folder_env (Some ''/bad'') = Inl (Exc OtherError ''cannot read wallet file'') \<and>
   start_new_window no_folder_env (Some ''/bad'') None demo_gui =
     (None, emits [LoadWallet (Some ''/bad''),
                   Log (LogRepr (Exc OtherError ''cannot read wallet file'')), NewWalletPath,
                   Log (LogTraceback (Exc FileNotFoundError ''wallets'')),
                   Warning (CannotLoadDlg ''wallets'')] demo_gui)"
proof -
  have f: "load_wallet no_folder_env (Some ''/bad'') = Inl (Exc OtherError ''cannot read wallet file'')"
    "get_new_wallet_path no_folder_env = Inl (Exc FileNotFoundError ''wallets'')"
    "standardize_path no_folder_env = (\<lambda>p. p)"
    by (simp_all add: no_folder_env_def failing_env_def demo_env_def get_new_wallet_path_def
          get_wallet_folder_def)
  have sp: "scan_path no_folder_env (Some ''/bad'') demo_gui = Some ''/bad''"
    by (simp add: scan_path_Some f)
  have sc: "scan_windows (scan_path no_folder_env (Some ''/bad'') demo_gui) (windows demo_gui) = None"
    by (simp add: demo_gui_windows)
  have r: "open_result no_folder_env (scan_path no_folder_env (Some ''/bad'') demo_gui)
             (windows demo_gui \<noteq> []) = None"
    unfolding sp by (simp add: open_result_def failed_result_def f demo_gui_windows)
  have e: "open_events no_folder_env (Some ''/bad'') False =
             [LoadWallet (Some ''/bad''),
              Log (LogRepr (Exc OtherError ''cannot read wallet file'')), NewWalletPath,
              Log (LogTraceback (Exc FileNotFoundError ''wallets'')),
              Warning (CannotLoadDlg ''wallets'')]"
    by (simp add: open_events_def failed_events_def load_error_events_def f)
  show ?thesis
    using start_new_window_failed[OF sc r, of None] unfolding sp
    by (simp add: e f demo_gui_windows last_wallet_events_def)
qed


subsection \<open>Hardware wallets\<close>

lemma slp_events_hardware:
  "hardware wal \<Longrightarrow>
   slp_events wal = [StopWallet (storage_path wal), Warning (HardwareWalletDlg wal)]"
  by (simp add: slp_events_def)

lemma wizard_events_hardware:
  assumes "hardware wal" and "AddWallet wal \<in> set (wizard_events env p)"
  shows "StopWallet (storage_path wal) \<in> set (wizard_events env p) \<and>
         Warning (HardwareWalletDlg wal) \<in> set (wizard_events env p)"
  using assms
  by (auto simp: wizard_events_def load_error_events_def slp_events_def
           split: sum.splits option.splits if_splits)

lemma failed_events_hardware:
  assumes "hardware wal" and "AddWallet wal \<in> set (failed_events env e busy)"
  shows "StopWallet (storage_path wal) \<in> set (failed_events env e busy) \<and>
         Warning (HardwareWalletDlg wal) \<in> set (failed_events env e busy)"
proof (cases "get_new_wallet_path env")
  case (Inl e2)
  then show ?thesis
    using assms(2) by (auto simp: failed_events_def load_error_events_def split: if_splits)
next
  case (Inr np)
  show ?thesis
  proof (cases busy)
    case True
    then show ?thesis
      using assms(2) by (auto simp: failed_events_def load_error_events_def)
  next
    case False
    then have "AddWallet wal \<in> set (wizard_events env (Some np))"
      using assms(2) Inr by (simp add: failed_events_def)
    from wizard_events_hardware[OF assms(1) this] show ?thesis
      using False Inr by (simp add: failed_events_def)
  qed
qed

lemma open_events_hardware:
  assumes "hardware wal"
    and "load_wallet env p = Inr (Some wal) \<or> AddWallet wal \<in> set (open_events env p busy)"
  shows "StopWallet (storage_path wal) \<in> set (open_events env p busy) \<and>
         Warning (HardwareWalletDlg wal) \<in> set (open_events env p busy)"
proof (cases "load_wallet env p")
  case (Inl e)
  then have "AddWallet wal \<in> set (failed_events env e busy)"
    using assms(2) by (simp add: open_events_def)
  from failed_events_hardware[OF assms(1) this] show ?thesis
    using Inl by (simp add: open_events_def)
next
  case (Inr r)
  show ?thesis
  proof (cases r)
    case None
    then have "AddWallet wal \<in> set (wizard_events env p)"
      using assms(2) Inr by (simp add: open_events_def)
    from wizard_events_hardware[OF assms(1) this] show ?thesis
      using Inr None by (simp add: open_events_def)
  next
    case (Some wal0)
    let ?e = "Exc RuntimeWarning ''User doesn't want to use this wallet''"
    show ?thesis
    proof (cases "wal0 = wal")
      case True
      then show ?thesis
        using Inr Some assms(1) by (simp add: open_events_def slp_events_hardware)
    next
      case False
      show ?thesis
      proof (cases "hardware wal0")
        case h: True
        have "AddWallet wal \<in> set (failed_events env ?e busy)"
          using assms(2) Inr Some False h by (auto simp: open_events_def slp_events_hardware)
        from failed_events_hardware[OF assms(1) this] show ?thesis
          using Inr Some h by (simp add: open_events_def)
      next
        case h: False
        then show ?thesis
          using assms(2) Inr Some False by (simp add: open_events_def)
      qed
    qed
  qed
qed

lemma open_event_not_created: "list_all open_event es \<Longrightarrow> CreateWindow n wal \<notin> set es"
  by (auto simp: list_all_iff)

lemma raise_events_not_created [simp]: "CreateWindow n wal \<notin> set (raise_events w uri)"
  by (simp add: raise_events_def uri_events_def split: option.splits)

lemma raise_events_not_added [simp]: "AddWallet wal \<notin> set (raise_events w uri)"
  by (simp add: raise_events_def uri_events_def split: option.splits)

text \<open>
  Claim C4. Let \<open>wal\<close> be a hardware wallet that \<open>start_new_window\<close> obtains: the one
  \<open>daemon.load_wallet\<close> returns, or the one the wizard hands back (then registered
  with \<open>daemon.add_wallet\<close>). Whatever the collaborators answer, and also when
  \<open>daemon.stop_wallet\<close> raises, the call attempts the stop of the wallet at its storage
  path and shows the hardware-wallet warning, and it constructs no window for \<open>wal\<close>:
  the registry is unchanged, or grew by one window whose wallet is not a hardware
  wallet.
\<close>

theorem start_new_window_hardware:
  assumes "hardware wal"
    and "loaded_wallet env path s = Some wal \<or>
         AddWallet wal \<in> set (new_events s (snd (start_new_window env path uri s)))"
  shows "StopWallet (storage_path wal) \<in> set (new_events s (snd (start_new_window env path uri s))) \<and>
         Warning (HardwareWalletDlg wal) \<in> set (new_events s (snd (start_new_window env path uri s))) \<and>
         (\<forall>n. CreateWindow n wal \<notin> set (new_events s (snd (start_new_window env path uri s)))) \<and>
         (windows (snd (start_new_window env path uri s)) = windows s \<or>
          (\<exists>w. windows (snd (start_new_window env path uri s)) = windows s @ [w] \<and>
               \<not> hardware (win_wallet w)))"
proof -
  let ?p = "scan_path env path s"
  let ?oe = "open_events env ?p (windows s \<noteq> [])"
  let ?ne = "new_events s (snd (start_new_window env path uri s))"
  have nc: "\<And>n. CreateWindow n wal \<notin> set ?oe"
    by (rule open_event_not_created) simp
  have npre: "AddWallet wal \<notin> set (last_wallet_events path s)"
    "\<And>n. CreateWindow n wal \<notin> set (last_wallet_events path s)"
    by (simp_all add: last_wallet_events_def)
  have reg: "windows (snd (start_new_window env path uri s)) = windows s \<or>
          (\<exists>w. windows (snd (start_new_window env path uri s)) = windows s @ [w] \<and>
               \<not> hardware (win_wallet w))"
    using start_new_window_windows[of env path uri s] by (auto simp: new_window_def)
  show ?thesis
  proof (cases rule: start_new_window_cases[of env path s uri])
    case (found w)
    have ne: "?ne = last_wallet_events path s @ BringToTop (wid w) # raise_events w uri"
      using found(2) by (simp add: new_events_emits)
    have False
      using assms(2) found(1) npre(1) by (auto simp: ne loaded_wallet_def)
    then show ?thesis ..
  next
    case failed
    have ne: "?ne = last_wallet_events path s @ ?oe"
      using failed(3) by (simp add: new_events_emits)
    have "load_wallet env ?p = Inr (Some wal) \<or> AddWallet wal \<in> set ?oe"
      using assms(2) failed(1) npre(1)
      by (auto simp: ne loaded_wallet_def split: sum.splits)
    from open_events_hardware[OF assms(1) this] show ?thesis
      using nc npre(2) reg by (simp add: ne)
  next
    case (created wal')
    have ne: "?ne = last_wallet_events path s @ ?oe @ created_events s wal' @
                      raise_events (new_window s wal') uri"
      using created(3) by (simp add: new_events_emits)
    have diff: "wal' \<noteq> wal"
      using open_result_not_hardware[OF created(2)] assms(1) by auto
    have "load_wallet env ?p = Inr (Some wal) \<or> AddWallet wal \<in> set ?oe"
      using assms(2) created(1) npre(1)
      by (auto simp: ne loaded_wallet_def created_events_def split: sum.splits)
    from open_events_hardware[OF assms(1) this] show ?thesis
      using nc npre(2) reg diff by (simp add: ne created_events_def)
  qed
qed

theorem start_new_window_hardware_witness:
  "hardware hardware_wallet \<and>
   loaded_wallet hardware_env (Some ''/hw'') demo_gui_w1 = Some hardware_wallet \<and>
   StopWallet ''/hw'' \<in> set (new_events demo_gui_w1
      (snd (start_new_window hardware_env (Some ''/hw'') None demo_gui_w1))) \<and>
   Warning (HardwareWalletDlg hardware_wallet) \<in> set (new_events demo_gui_w1
      (snd (start_new_window hardware_env (Some ''/hw'') None demo_gui_w1)))"
proof -
  have h: "hardware hardware_wallet" by (simp add: hardware_wallet_def)
  have sp: "scan_path hardware_env (Some ''/hw'') demo_gui_w1 = Some ''/hw''"
    by (simp add: scan_path_Some hardware_env_def demo_env_def)
  have l: "loaded_wallet hardware_env (Some ''/hw'') demo_gui_w1 = Some hardware_wallet"
    unfolding loaded_wallet_def sp
    by (simp add: demo_gui_w1_scan hardware_env_def)
  show ?thesis
    using start_new_window_hardware[OF h disjI1[OF l], of None] h l
    by (simp add: hardware_wallet_def)
qed

section \<open>Invariants of the reachable states\<close>

lemma set_dark_theme_frame:
  "config (set_dark_theme_if_needed env s) = config s"
  "network (set_dark_theme_if_needed env s) = network s"
  "windows (set_dark_theme_if_needed env s) = windows s"
  "next_wid (set_dark_theme_if_needed env s) = next_wid s"
  "dark_icon (set_dark_theme_if_needed env s) = dark_icon s"
  "quit_on_last_window_closed (set_dark_theme_if_needed env s) = quit_on_last_window_closed s"
  "clock (set_dark_theme_if_needed env s) = clock s"
  by (simp_all add: set_dark_theme_if_needed_def try_dark_style_def Let_def
        split: option.splits sum.splits)

lemma start_auto_update_timer_frame:
  "config (start_auto_update_timer b s) = config s"
  "network (start_auto_update_timer b s) = network s"
  "windows (start_auto_update_timer b s) = windows s"
  "dark_icon (start_auto_update_timer b s) = dark_icon s"
  "quit_on_last_window_closed (start_auto_update_timer b s) = quit_on_last_window_closed s"
  "clock (start_auto_update_timer b s) = clock s"
  by (simp_all add: start_auto_update_timer_def Let_def)

lemma init_fields:
  "config (ElectrumGui_init env cfg net t0) = cfg"
  "network (ElectrumGui_init env cfg net t0) = net"
  "windows (ElectrumGui_init env cfg net t0) = []"
  "dark_icon (ElectrumGui_init env cfg net t0) =
     (case cfg_dark_icon cfg of None \<Rightarrow> False | Some b \<Rightarrow> b)"
  "quit_on_last_window_closed (ElectrumGui_init env cfg net t0)"
  "clock (ElectrumGui_init env cfg net t0) = t0"
  by (simp_all add: ElectrumGui_init_def Let_def set_dark_theme_frame
        start_auto_update_timer_frame build_tray_menu_def)

lemma main_frame:
  "config (main env s) = config s"
  "dark_icon (main env s) = dark_icon s"
  "quit_on_last_window_closed s \<Longrightarrow> quit_on_last_window_closed (main env s)"
proof -
  obtain r s1 where i: "init_network env s = (r, s1)" by (cases "init_network env s")
  have s1: "config s1 = config s" "dark_icon s1 = dark_icon s"
    "quit_on_last_window_closed s1 = quit_on_last_window_closed s"
    using i by (auto simp: init_network_def Let_def split: if_splits option.splits)
  let ?s2 = "emits [OpenLastWallet, GetWalletPath] (s1\<lparr>timer_active := True\<rparr>)"
  obtain rw s3 where w: "start_new_window env (Some (get_wallet_path env)) (cfg_url (config s)) ?s2 = (rw, s3)"
    by (cases "start_new_window env (Some (get_wallet_path env)) (cfg_url (config s)) ?s2")
  have s3: "config s3 = config s" "dark_icon s3 = dark_icon s"
    "quit_on_last_window_closed s3 = quit_on_last_window_closed s"
    using start_new_window_frame(1,3,6)[of env "Some (get_wallet_path env)" "cfg_url (config s)" ?s2]
    by (simp_all add: w s1)
  show "config (main env s) = config s" "dark_icon (main env s) = dark_icon s"
    "quit_on_last_window_closed s \<Longrightarrow> quit_on_last_window_closed (main env s)"
    using i w s1 s3
    by (auto simp: main_def Let_def split: option.splits)
qed

lemma close_window_frame:
  assumes "close_window w s = Inr s'"
  shows "config s' = config s" "dark_icon s' = dark_icon s"
    "quit_on_last_window_closed s' = quit_on_last_window_closed s"
  using assms
  by (auto simp: close_window_def Let_def build_tray_menu_def gc_schedule_def
        quit_after_last_window_def split: if_splits)

lemma set_auto_update_check_frame:
  "cfg_dark_icon (config (set_auto_update_check b s)) = cfg_dark_icon (config s)"
  "dark_icon (set_auto_update_check b s) = dark_icon s"
  "quit_on_last_window_closed (set_auto_update_check b s) = quit_on_last_window_closed s"
  by (simp_all add: set_auto_update_check_def start_auto_update_timer_def
        stop_auto_update_timer_def Let_def)

lemma update_timer_fires_frame:
  "config (update_timer_fires r s) = config s"
  "dark_icon (update_timer_fires r s) = dark_icon s"
  "quit_on_last_window_closed (update_timer_fires r s) = quit_on_last_window_closed s"
  by (simp_all add: update_timer_fires_def on_auto_update_timeout_def
        start_auto_update_timer_def Let_def)

lemma toggle_tray_icon_fields:
  "dark_icon (toggle_tray_icon s) = (\<not> dark_icon s)"
  "cfg_dark_icon (config (toggle_tray_icon s)) = Some (\<not> dark_icon s)"
  "quit_on_last_window_closed (toggle_tray_icon s) = quit_on_last_window_closed s"
  by (simp_all add: toggle_tray_icon_def Let_def)

text \<open>
  In every reachable state quitting on the last window is switched on, and the tray
  flag in memory is what the configuration holds.
\<close>

lemma reachable_invariant:
  "reachable s \<Longrightarrow>
     quit_on_last_window_closed s \<and> dark_icon s = config_get_dark_icon s"
proof (induction rule: reachable.induct)
  case (r_init env cfg net t0)
  show ?case by (simp add: init_fields config_get_dark_icon_def)
next
  case (r_main s env)
  then show ?case by (simp add: main_frame config_get_dark_icon_def)
next
  case (r_start s env path uri)
  then show ?case by (simp add: start_new_window_frame config_get_dark_icon_def)
next
  case (r_close s w s')
  then show ?case using close_window_frame[OF r_close.hyps(2)]
    by (simp add: config_get_dark_icon_def)
next
  case (r_toggle s)
  then show ?case by (simp add: toggle_tray_icon_fields config_get_dark_icon_def)
next
  case (r_auto s b)
  then show ?case by (simp add: set_auto_update_check_frame config_get_dark_icon_def)
next
  case (r_timeout s recently)
  then show ?case by (simp add: update_timer_fires_frame config_get_dark_icon_def)
qed


section \<open>Closing windows and the tray icon\<close>







text \<open>
  Claim C7. In every reachable state of the shell (so for every value of the persisted
  preference the shell was constructed with, and after any of its operations), two
  calls of \<open>toggle_tray_icon\<close> leave the flag in memory and the value
  \<open>config.get("dark_icon", False)\<close> as they were.
\<close>

theorem toggle_tray_icon_twice:
  assumes "reachable s"
  shows "dark_icon (toggle_tray_icon (toggle_tray_icon s)) = dark_icon s \<and>
         config_get_dark_icon (toggle_tray_icon (toggle_tray_icon s)) = config_get_dark_icon s"
  using reachable_invariant[OF assms]
  by (simp add: toggle_tray_icon_fields config_get_dark_icon_def)

theorem toggle_tray_icon_twice_witness:
  "reachable (ElectrumGui_init demo_env (demo_config\<lparr>cfg_dark_icon := Some True\<rparr>) True 0) \<and>
   config_get_dark_icon (ElectrumGui_init demo_env (demo_config\<lparr>cfg_dark_icon := Some True\<rparr>) True 0) \<and>
   config_get_dark_icon (toggle_tray_icon (toggle_tray_icon
     (ElectrumGui_init demo_env (demo_config\<lparr>cfg_dark_icon := Some True\<rparr>) True 0))) \<and>
   dark_icon (toggle_tray_icon (toggle_tray_icon
     (ElectrumGui_init demo_env (demo_config\<lparr>cfg_dark_icon := Some True\<rparr>) True 0)))"
proof -
  let ?s = "ElectrumGui_init demo_env (demo_config\<lparr>cfg_dark_icon := Some True\<rparr>) True 0"
  have r: "reachable ?s" by (rule r_init)
  show ?thesis
    using toggle_tray_icon_twice[OF r] r
    by (simp add: init_fields config_get_dark_icon_def)
qed

section \<open>The update-check scheduler\<close>

text \<open>
  Claim C6, as the code has it. With the scheduler enabled, \<open>set_auto_update_check(False)\<close>
  stops the timer and leaves its \<open>first_run\<close> flag and interval as they were;
  \<open>set_auto_update_check(True)\<close> after it calls \<open>_start_auto_update_timer()\<close> with the
  default \<open>first_run = False\<close>, so the timer restarts in the steady state (flag cleared,
  interval 3600 s, countdown from now) whatever its state was. Windows, tray flag and
  clock are untouched, and the configuration key ends as \<open>True\<close>.
\<close>

theorem set_auto_update_check_restart:
  assumes "has_auto_update_check s"
  shows "update_checker_timer (set_auto_update_check False s) =
           (update_checker_timer s)\<lparr>t_active := False\<rparr> \<and>
         update_checker_timer (set_auto_update_check True (set_auto_update_check False s)) =
           (update_checker_timer s)\<lparr>t_active := True, t_interval := 3600000,
              t_first_run := False, t_started := clock s\<rparr> \<and>
         windows (set_auto_update_check True (set_auto_update_check False s)) = windows s \<and>
         dark_icon (set_auto_update_check True (set_auto_update_check False s)) = dark_icon s \<and>
         clock (set_auto_update_check True (set_auto_update_check False s)) = clock s \<and>
         has_auto_update_check (set_auto_update_check True (set_auto_update_check False s))"
  using assms
  by (simp add: set_auto_update_check_def has_auto_update_check_def
        start_auto_update_timer_def stop_auto_update_timer_def Let_def)

lemma demo_gui_timer:
  "has_auto_update_check demo_gui"
  "update_checker_timer demo_gui =
     \<lparr>t_active = True, t_interval = 10000, t_first_run = True, t_started = 0\<rparr>"
  by (simp_all add: demo_gui_eq has_auto_update_check_def demo_config_def)

theorem set_auto_update_check_restart_witness:
  "has_auto_update_check demo_gui \<and>
   update_checker_timer (set_auto_update_check False demo_gui) =
     \<lparr>t_active = False, t_interval = 10000, t_first_run = True, t_started = 0\<rparr> \<and>
   update_checker_timer (set_auto_update_check True (set_auto_update_check False demo_gui)) =
     \<lparr>t_active = True, t_interval = 3600000, t_first_run = False, t_started = 0\<rparr>"
proof -
  have c: "clock demo_gui = 0" by (simp add: demo_gui_eq)
  show ?thesis
    using set_auto_update_check_restart[OF demo_gui_timer(1)]
    by (simp add: demo_gui_timer c)
qed

text \<open>
  Claim C6 as stated fails: the constructed shell is in its first-run state (flag set,
  10 s interval); after disabling and re-enabling it is in the steady state.
\<close>

theorem first_run_lost_counterexample:
  "has_auto_update_check demo_gui \<and>
   t_first_run (update_checker_timer demo_gui) \<and>
   t_interval (update_checker_timer demo_gui) = 10000 \<and>
   \<not> t_first_run (update_checker_timer
        (set_auto_update_check True (set_auto_update_check False demo_gui))) \<and>
   t_interval (update_checker_timer
        (set_auto_update_check True (set_auto_update_check False demo_gui))) = 3600000"
  by (simp add: demo_gui_eq demo_config_def set_auto_update_check_def has_auto_update_check_def
        start_auto_update_timer_def stop_auto_update_timer_def Let_def emit_def)

section \<open>main\<close>

text \<open>
  Claim C8. If \<open>init_network\<close> raises (the network wizard is cancelled, gone back from,
  or fails with anything else), \<open>main\<close> returns at once: the state is the one
  \<open>init_network\<close> left, with the traceback logged for an exception other than
  \<open>UserCancelled\<close> and \<open>GoBack\<close>. The registry is unchanged, the housekeeping timer is
  not started, no wallet is loaded, no window is created and the event loop is not
  entered.
\<close>

theorem main_init_network_raises:
  assumes "fst (init_network env s) = Some e"
  shows "main env s =
           (if exc_class e = UserCancelled \<or> exc_class e = GoBack then emits [NetworkWizard] s
            else emits [NetworkWizard, Log (LogTraceback e)] s) \<and>
         windows (main env s) = windows s \<and>
         timer_active (main env s) = timer_active s \<and>
         ExecEventLoop \<notin> set (new_events s (main env s)) \<and>
         (\<forall>p. LoadWallet p \<notin> set (new_events s (main env s))) \<and>
         (\<forall>n wal. CreateWindow n wal \<notin> set (new_events s (main env s)))"
proof -
  have i: "init_network env s = (Some e, emit NetworkWizard s)"
    using assms by (auto simp: init_network_def Let_def split: if_splits option.splits)
  have m: "main env s =
           (if exc_class e = UserCancelled \<or> exc_class e = GoBack then emits [NetworkWizard] s
            else emits [NetworkWizard, Log (LogTraceback e)] s)"
    by (simp add: main_def i emit_emits emits_emits)
  show ?thesis
    unfolding m by (simp add: new_events_emits)
qed

lemma first_run_gui_fields:
  "network first_run_gui" "cfg_auto_connect (config first_run_gui) = None"
  "windows first_run_gui = []" "\<not> timer_active first_run_gui"
  by (simp_all add: first_run_gui_def init_fields)
     (simp add: ElectrumGui_init_def Let_def set_dark_theme_if_needed_def try_dark_style_def
        build_tray_menu_def has_auto_update_check_def start_auto_update_timer_def
        demo_config_def split: option.splits sum.splits)

theorem main_init_network_raises_witness:
  "fst (init_network cancel_env first_run_gui) = Some (Exc UserCancelled []) \<and>
   main cancel_env first_run_gui = emits [NetworkWizard] first_run_gui \<and>
   windows (main cancel_env first_run_gui) = [] \<and>
   \<not> timer_active (main cancel_env first_run_gui)"
proof -
  have i: "fst (init_network cancel_env first_run_gui) = Some (Exc UserCancelled [])"
    by (simp add: init_network_def first_run_gui_fields cancel_env_def Let_def)
  show ?thesis
    using main_init_network_raises[OF i] i by (simp add: first_run_gui_fields)
qed


section \<open>The theme\<close>

lemma set_dark_theme_default:
  assumes "cfg_qt_gui_color_theme (config s) \<noteq> Some ''dark''"
  shows "set_dark_theme_if_needed env s =
           emits [StylePatch False None, ColorSchemeUpdate False] s"
  using assms by (simp add: set_dark_theme_if_needed_def emit_def emits_def)

lemma set_dark_theme_failed:
  assumes "cfg_qt_gui_color_theme (config s) = Some ''dark''"
    and "try_dark_style env s = (Inl e, s1)"
  shows "set_dark_theme_if_needed env s =
           emits [Log (LogDarkError e), StylePatch False None, ColorSchemeUpdate False] s1"
  using assms by (simp add: set_dark_theme_if_needed_def emit_def emits_def)

lemma set_dark_theme_loaded:
  assumes "cfg_qt_gui_color_theme (config s) = Some ''dark''"
    and "try_dark_style env s = (Inr ver, s1)"
  shows "set_dark_theme_if_needed env s =
           emits [StylePatch True ver, ColorSchemeUpdate True] s1"
  using assms by (simp add: set_dark_theme_if_needed_def emit_def emits_def)

text \<open>
  Claim C9, as the code has it. No exception leaves \<open>set_dark_theme_if_needed\<close>, and in
  every case its last two actions are the style patcher and the recomputation of the
  colour palette, both with the same dark flag. If the dark theme is not asked for, or
  importing \<open>qdarkstyle\<close> or loading its stylesheet fails, no stylesheet is set and the
  flag is off: the default theme. If the stylesheet loads, it stays applied and the
  flag is on, also when the version cannot be determined (one of the five exception
  classes the inner handler names): then the warning is logged and the patcher gets
  no version.
\<close>

theorem set_dark_theme_if_needed_outcomes:
  "(\<exists>pre dark ver. set_dark_theme_if_needed env s =
       emits (pre @ [StylePatch dark ver, ColorSchemeUpdate dark]) s) \<and>
   (cfg_qt_gui_color_theme (config s) \<noteq> Some ''dark'' \<longrightarrow>
      set_dark_theme_if_needed env s = emits [StylePatch False None, ColorSchemeUpdate False] s) \<and>
   (cfg_qt_gui_color_theme (config s) = Some ''dark'' \<longrightarrow>
      (\<forall>e. qdarkstyle_import env = Some e \<or>
           (qdarkstyle_import env = None \<and> qdarkstyle_load_stylesheet env = Some e) \<longrightarrow>
         set_dark_theme_if_needed env s =
           emits [Log (LogDarkError e), StylePatch False None, ColorSchemeUpdate False] s) \<and>
      (qdarkstyle_import env = None \<and> qdarkstyle_load_stylesheet env = None \<longrightarrow>
         (\<forall>v. qdarkstyle_version env = Inr v \<longrightarrow>
            set_dark_theme_if_needed env s =
              emits [SetStyleSheetDark, StylePatch True (Some v), ColorSchemeUpdate True] s) \<and>
         (\<forall>e. qdarkstyle_version env = Inl e \<and> version_error_caught (exc_class e) \<longrightarrow>
            set_dark_theme_if_needed env s =
              emits [SetStyleSheetDark, Log (LogDarkVersion e), StylePatch True None,
                     ColorSchemeUpdate True] s)))"
proof (intro conjI impI allI)
  show "\<exists>pre dark ver. set_dark_theme_if_needed env s =
       emits (pre @ [StylePatch dark ver, ColorSchemeUpdate dark]) s"
  proof (cases "cfg_qt_gui_color_theme (config s) = Some ''dark''")
    case False
    have "set_dark_theme_if_needed env s =
            emits ([] @ [StylePatch False None, ColorSchemeUpdate False]) s"
      using set_dark_theme_default[OF False] by simp
    then show ?thesis by blast
  next
    case True
    obtain r s1 where t: "try_dark_style env s = (r, s1)" by (cases "try_dark_style env s")
    obtain es where s1: "s1 = emits es s"
    proof -
      have "s1 = emits [] s \<or> s1 = emits [SetStyleSheetDark] s \<or>
            (\<exists>e. s1 = emits [SetStyleSheetDark, Log (LogDarkVersion e)] s)"
        using t
        by (auto simp: try_dark_style_def Let_def emit_emits emits_emits emits_Nil
                 split: option.splits sum.splits if_splits)
      then show ?thesis using that by blast
    qed
    show ?thesis
    proof (cases r)
      case (Inl e)
      have "set_dark_theme_if_needed env s =
              emits ((es @ [Log (LogDarkError e)]) @ [StylePatch False None, ColorSchemeUpdate False]) s"
        using set_dark_theme_failed[OF True t[unfolded Inl]] by (simp add: s1 emits_emits)
      then show ?thesis by blast
    next
      case (Inr ver)
      have "set_dark_theme_if_needed env s =
              emits (es @ [StylePatch True ver, ColorSchemeUpdate True]) s"
        using set_dark_theme_loaded[OF True t[unfolded Inr]] by (simp add: s1 emits_emits)
      then show ?thesis by blast
    qed
  qed
next
  assume "cfg_qt_gui_color_theme (config s) \<noteq> Some ''dark''"
  then show "set_dark_theme_if_needed env s =
               emits [StylePatch False None, ColorSchemeUpdate False] s"
    by (rule set_dark_theme_default)
next
  fix e
  assume d: "cfg_qt_gui_color_theme (config s) = Some ''dark''"
    and f: "qdarkstyle_import env = Some e \<or>
           (qdarkstyle_import env = None \<and> qdarkstyle_load_stylesheet env = Some e)"
  have "try_dark_style env s = (Inl e, s)"
    using f by (auto simp: try_dark_style_def)
  from set_dark_theme_failed[OF d this]
  show "set_dark_theme_if_needed env s =
          emits [Log (LogDarkError e), StylePatch False None, ColorSchemeUpdate False] s" .
next
  fix v
  assume d: "cfg_qt_gui_color_theme (config s) = Some ''dark''"
    and ok: "qdarkstyle_import env = None \<and> qdarkstyle_load_stylesheet env = None"
    and v: "qdarkstyle_version env = Inr v"
  have "try_dark_style env s = (Inr (Some v), emits [SetStyleSheetDark] s)"
    using ok v by (simp add: try_dark_style_def Let_def emit_emits)
  from set_dark_theme_loaded[OF d this]
  show "set_dark_theme_if_needed env s =
          emits [SetStyleSheetDark, StylePatch True (Some v), ColorSchemeUpdate True] s"
    by (simp add: emits_emits)
next
  fix e
  assume d: "cfg_qt_gui_color_theme (config s) = Some ''dark''"
    and ok: "qdarkstyle_import env = None \<and> qdarkstyle_load_stylesheet env = None"
    and v: "qdarkstyle_version env = Inl e \<and> version_error_caught (exc_class e)"
  have "try_dark_style env s =
          (Inr None, emits [SetStyleSheetDark, Log (LogDarkVersion e)] s)"
    using ok v by (simp add: try_dark_style_def Let_def emit_emits emits_emits)
  from set_dark_theme_loaded[OF d this]
  show "set_dark_theme_if_needed env s =
          emits [SetStyleSheetDark, Log (LogDarkVersion e), StylePatch True None,
                 ColorSchemeUpdate True] s"
    by (simp add: emits_emits)
qed

lemma dark_gui_theme: "cfg_qt_gui_color_theme (config dark_gui) = Some ''dark''"
  by (simp add: dark_gui_def)

theorem set_dark_theme_if_needed_outcomes_witness:
  "set_dark_theme_if_needed demo_env demo_gui =
     emits [StylePatch False None, ColorSchemeUpdate False] demo_gui \<and>
   set_dark_theme_if_needed (demo_env\<lparr>qdarkstyle_import := Some (Exc ImportError ''qdarkstyle'')\<rparr>)
       dark_gui =
     emits [Log (LogDarkError (Exc ImportError ''qdarkstyle'')), StylePatch False None,
            ColorSchemeUpdate False] dark_gui \<and>
   set_dark_theme_if_needed demo_env dark_gui =
     emits [SetStyleSheetDark, StylePatch True (Some [2, 6, 8]), ColorSchemeUpdate True] dark_gui \<and>
   set_dark_theme_if_needed no_version_env dark_gui =
     emits [SetStyleSheetDark, Log (LogDarkVersion (Exc AttributeError ''__version__'')),
            StylePatch True None, ColorSchemeUpdate True] dark_gui"
proof -
  have n: "cfg_qt_gui_color_theme (config demo_gui) \<noteq> Some ''dark''"
    by (simp add: demo_gui_eq demo_config_def)
  show ?thesis
    using set_dark_theme_if_needed_outcomes[of demo_env demo_gui]
      set_dark_theme_if_needed_outcomes[of
        "demo_env\<lparr>qdarkstyle_import := Some (Exc ImportError ''qdarkstyle'')\<rparr>" dark_gui]
      set_dark_theme_if_needed_outcomes[of demo_env dark_gui]
      set_dark_theme_if_needed_outcomes[of no_version_env dark_gui]
      n dark_gui_theme
    by (simp add: demo_env_def no_version_env_def version_error_caught_def)
qed

text \<open>
  Claim C9 as stated fails: the dark theme is asked for, \<open>qdarkstyle\<close> loads, and its
  version cannot be determined (\<open>AttributeError\<close>). The method does not fall back to
  the default theme: the dark stylesheet is set and patcher and palette are told
  \<open>dark = True\<close>.
\<close>

theorem dark_theme_kept_counterexample:
  "cfg_qt_gui_color_theme (config dark_gui) = Some ''dark'' \<and>
   qdarkstyle_version no_version_env = Inl (Exc AttributeError ''__version__'') \<and>
   new_events dark_gui (set_dark_theme_if_needed no_version_env dark_gui) =
     [SetStyleSheetDark, Log (LogDarkVersion (Exc AttributeError ''__version__'')),
      StylePatch True None, ColorSchemeUpdate True]"
  by (simp add: dark_gui_def no_version_env_def demo_env_def set_dark_theme_if_needed_def
        try_dark_style_def version_error_caught_def Let_def new_events_def)

section \<open>The schedule of the update checks\<close>

lemma fire_times_append: "fire_times (xs @ ys) = fire_times xs @ fire_times ys"
  by (induction xs rule: fire_times.induct) simp_all

lemma check_times_append: "check_times (xs @ ys) = check_times xs @ check_times ys"
  by (induction xs rule: check_times.induct) simp_all

lemma fire_times_slot [simp]: "fire_times (slot_events net r t) = []"
  by (simp add: slot_events_def)

lemma check_times_slot:
  "check_times (slot_events net r t) = (if net \<and> \<not> r then [t] else [])"
  by (simp add: slot_events_def)

lemma fire_steady:
  assumes "steady t s"
  shows "update_timer_fires r s =
           emits (UpdateTimerTimeout (t + 3600000) # slot_events (network s) r (t + 3600000))
             (s\<lparr>clock := t + 3600000,
                update_checker_timer :=
                  \<lparr>t_active = True, t_interval = 3600000, t_first_run = False,
                   t_started = t + 3600000\<rparr>\<rparr>)"
  using assms
  by (simp add: steady_def update_timer_fires_def on_auto_update_timeout_def slot_events_def
        Let_def emit_def emits_def)

lemma fire_first:
  assumes "update_checker_timer s =
             \<lparr>t_active = True, t_interval = 10000, t_first_run = True, t_started = t\<rparr>"
  shows "update_timer_fires r s =
           emits (UpdateTimerTimeout (t + 10000) # slot_events (network s) r (t + 10000) @
                  [Log (LogInterval 3600)])
             (s\<lparr>clock := t + 10000,
                update_checker_timer :=
                  \<lparr>t_active = True, t_interval = 3600000, t_first_run = False,
                   t_started = t + 10000\<rparr>\<rparr>)"
  using assms
  by (simp add: update_timer_fires_def on_auto_update_timeout_def slot_events_def
        start_auto_update_timer_def Let_def emit_def emits_def)

lemma upt_Suc_shift: "[0..<Suc n] = 0 # map Suc [0..<n]"
  by (simp add: upt_conv_Cons map_Suc_upt del: upt_Suc)

lemma sched_fire:
  "g 0 # map (\<lambda>k. g (Suc k)) [0..<n] = map g [0..<Suc n]"
  by (simp add: upt_Suc_shift comp_def del: upt_Suc)

lemma sched_check:
  "(if P 0 then [g 0] else []) @ map (\<lambda>k. g (Suc k)) (filter (\<lambda>k. P (Suc k)) [0..<n]) =
   map g (filter P [0..<Suc n])"
  by (simp add: upt_Suc_shift filter_map comp_def del: upt_Suc)

lemma sched_extend:
  assumes "fire_times E = [g 0]" and "check_times E = (if P 0 then [g 0] else [])"
    and "fire_times es = map (\<lambda>k. g (Suc k)) [0..<n]"
    and "check_times es = map (\<lambda>k. g (Suc k)) (filter (\<lambda>k. P (Suc k)) [0..<n])"
  shows "fire_times (E @ es) = map g [0..<Suc n]"
    and "check_times (E @ es) = map g (filter P [0..<Suc n])"
proof -
  have "fire_times (E @ es) = g 0 # map (\<lambda>k. g (Suc k)) [0..<n]"
    unfolding fire_times_append assms by simp
  then show "fire_times (E @ es) = map g [0..<Suc n]"
    unfolding sched_fire .
  have "check_times (E @ es) =
          (if P 0 then [g 0] else []) @ map (\<lambda>k. g (Suc k)) (filter (\<lambda>k. P (Suc k)) [0..<n])"
    unfolding check_times_append assms by simp
  then show "check_times (E @ es) = map g (filter P [0..<Suc n])"
    unfolding sched_check .
qed

lemma run_steady:
  "steady t s \<Longrightarrow>
   \<exists>es. trace (run_timeouts rs s) = trace s @ es \<and>
        fire_times es = map (\<lambda>k. t + 3600000 + k * 3600000) [0..<length rs] \<and>
        check_times es =
          map (\<lambda>k. t + 3600000 + k * 3600000)
            (filter (\<lambda>k. network s \<and> \<not> rs ! k) [0..<length rs])"
proof (induction rs arbitrary: s t)
  case Nil
  show ?case by simp
next
  case (Cons r rs)
  define g where "g = (\<lambda>k. t + 3600000 + k * 3600000)"
  define P where "P = (\<lambda>k. network s \<and> \<not> (r # rs) ! k)"
  have gS: "(\<lambda>k. t + 3600000 + 3600000 + k * 3600000) = (\<lambda>k. g (Suc k))"
    by (simp add: g_def fun_eq_iff)
  have PS: "(\<lambda>k. network s \<and> \<not> rs ! k) = (\<lambda>k. P (Suc k))"
    by (simp add: P_def)
  let ?s1 = "update_timer_fires r s"
  let ?E = "UpdateTimerTimeout (t + 3600000) # slot_events (network s) r (t + 3600000)"
  have s1: "steady (t + 3600000) ?s1" "network ?s1 = network s" "trace ?s1 = trace s @ ?E"
    by (simp_all add: fire_steady[OF Cons.prems] steady_def)
  from Cons.IH[OF s1(1)] obtain es where
    tr: "trace (run_timeouts rs ?s1) = trace ?s1 @ es"
    and ft: "fire_times es = map (\<lambda>k. g (Suc k)) [0..<length rs]"
    and ct: "check_times es = map (\<lambda>k. g (Suc k)) (filter (\<lambda>k. P (Suc k)) [0..<length rs])"
    unfolding s1(2) gS PS by blast
  have a: "trace (run_timeouts (r # rs) s) = trace s @ (?E @ es)"
    by (simp add: tr s1(3))
  have e1: "fire_times ?E = [g 0]"
    by (simp add: g_def)
  have e2: "check_times ?E = (if P 0 then [g 0] else [])"
    by (simp add: g_def P_def check_times_slot)
  have len: "length (r # rs) = Suc (length rs)" by simp
  show ?case
    unfolding len
    using a sched_extend[OF e1 e2 ft ct] unfolding g_def P_def by blast
qed

lemma run_fresh:
  "\<exists>es. trace (run_timeouts rs (start_auto_update_timer True s)) =
          trace s @ Log (LogInterval 10) # es \<and>
        fire_times es = map (\<lambda>k. clock s + 10000 + k * 3600000) [0..<length rs] \<and>
        check_times es =
          map (\<lambda>k. clock s + 10000 + k * 3600000)
            (filter (\<lambda>k. network s \<and> \<not> rs ! k) [0..<length rs])"
proof (cases rs)
  case Nil
  show ?thesis by (simp add: Nil start_auto_update_timer_def Let_def)
next
  case (Cons r rs')
  define g where "g = (\<lambda>k. clock s + 10000 + k * 3600000)"
  define P where "P = (\<lambda>k. network s \<and> \<not> (r # rs') ! k)"
  have gS: "(\<lambda>k. clock s + 10000 + 3600000 + k * 3600000) = (\<lambda>k. g (Suc k))"
    by (simp add: g_def fun_eq_iff)
  have PS: "(\<lambda>k. network s \<and> \<not> rs' ! k) = (\<lambda>k. P (Suc k))"
    by (simp add: P_def)
  let ?s0 = "start_auto_update_timer True s"
  have s0: "update_checker_timer ?s0 =
              \<lparr>t_active = True, t_interval = 10000, t_first_run = True, t_started = clock s\<rparr>"
    "network ?s0 = network s" "trace ?s0 = trace s @ [Log (LogInterval 10)]"
    by (simp_all add: start_auto_update_timer_def Let_def)
  let ?t = "clock s + 10000"
  let ?s1 = "update_timer_fires r ?s0"
  let ?E = "UpdateTimerTimeout ?t # slot_events (network s) r ?t @ [Log (LogInterval 3600)]"
  have s1: "steady ?t ?s1" "network ?s1 = network s"
    "trace ?s1 = trace s @ Log (LogInterval 10) # ?E"
    by (simp_all add: fire_first[OF s0(1)] steady_def s0)
  from run_steady[OF s1(1), of rs'] obtain es where
    tr: "trace (run_timeouts rs' ?s1) = trace ?s1 @ es"
    and ft: "fire_times es = map (\<lambda>k. g (Suc k)) [0..<length rs']"
    and ct: "check_times es = map (\<lambda>k. g (Suc k)) (filter (\<lambda>k. P (Suc k)) [0..<length rs'])"
    unfolding s1(2) gS PS by blast
  have a: "trace (run_timeouts rs ?s0) = trace s @ Log (LogInterval 10) # (?E @ es)"
    by (simp add: Cons tr s1(3))
  have e1: "fire_times ?E = [g 0]"
    by (simp add: g_def fire_times_append)
  have e2: "check_times ?E = (if P 0 then [g 0] else [])"
    by (simp add: g_def P_def check_times_append check_times_slot)
  have len: "length rs = Suc (length rs')" by (simp add: Cons)
  show ?thesis
    unfolding len
    using a sched_extend[OF e1 e2 ft ct] unfolding g_def P_def Cons by blast
qed


lemma spaced_schedule:
  "sorted_wrt (\<lambda>a b. a + d \<le> b) (map (\<lambda>k. c + k * d) (filter P [0..<n]))"
proof -
  have "sorted_wrt (\<lambda>x y. c + x * d + d \<le> c + y * d) [0..<n]"
  proof (rule sorted_wrt_mono_rel[of _ "(<)"])
    fix x y :: nat
    assume "x < y"
    then have "Suc x \<le> y" by simp
    then have "Suc x * d \<le> y * d" by (rule mult_le_mono1)
    then show "c + x * d + d \<le> c + y * d" by simp
  next
    show "sorted_wrt (<) [0..<n]" by simp
  qed
  then have "sorted_wrt (\<lambda>x y. c + x * d + d \<le> c + y * d) (filter P [0..<n])"
    by (rule sorted_wrt_filter)
  then show ?thesis by (simp add: sorted_wrt_map)
qed

text \<open>
  Claim C5, as the code has it. Start the scheduler fresh
  (\<open>_start_auto_update_timer(first_run=True)\<close>) at clock value \<open>clock s\<close> and let the
  timer fire any number of times, \<open>rs\<close> giving what \<open>did_check_recently()\<close> answers at
  each timeout. Then the timeouts are delivered at 10 s after the start and every
  3600 s after that; a check is made exactly at those timeouts at which the shell is
  online and no check was made recently, so any two checks the scheduler makes are at
  least 3600 s apart; and offline it makes no check. (Offline the timer fires all the
  same: the first conjunct does not depend on \<open>network s\<close>.)
\<close>

theorem update_check_schedule:
  "fire_times (new_events s (run_timeouts rs (start_auto_update_timer True s))) =
     map (\<lambda>k. clock s + 10000 + k * 3600000) [0..<length rs] \<and>
   check_times (new_events s (run_timeouts rs (start_auto_update_timer True s))) =
     map (\<lambda>k. clock s + 10000 + k * 3600000)
       (filter (\<lambda>k. network s \<and> \<not> rs ! k) [0..<length rs]) \<and>
   sorted_wrt (\<lambda>a b. a + 3600000 \<le> b)
     (check_times (new_events s (run_timeouts rs (start_auto_update_timer True s)))) \<and>
   (\<not> network s \<longrightarrow>
      check_times (new_events s (run_timeouts rs (start_auto_update_timer True s))) = [])"
proof -
  from run_fresh[of rs s] obtain es where
    tr: "trace (run_timeouts rs (start_auto_update_timer True s)) =
           trace s @ Log (LogInterval 10) # es"
    and ft: "fire_times es = map (\<lambda>k. clock s + 10000 + k * 3600000) [0..<length rs]"
    and ct: "check_times es =
          map (\<lambda>k. clock s + 10000 + k * 3600000)
            (filter (\<lambda>k. network s \<and> \<not> rs ! k) [0..<length rs])"
    by blast
  have ne: "new_events s (run_timeouts rs (start_auto_update_timer True s)) =
              Log (LogInterval 10) # es"
    by (simp add: new_events_def tr)
  have f: "fire_times (Log (LogInterval 10) # es) = fire_times es"
    and c: "check_times (Log (LogInterval 10) # es) = check_times es"
    by simp_all
  have sp: "sorted_wrt (\<lambda>a b. a + 3600000 \<le> b) (check_times es)"
    unfolding ct using spaced_schedule[of 3600000 "clock s + 10000"] by simp
  have off: "\<not> network s \<longrightarrow> check_times es = []"
    unfolding ct by simp
  show ?thesis
    unfolding ne f c using ft ct sp off by blast
qed

lemma offline_gui_eq:
  "offline_gui =
     \<lparr>config = demo_config, network = False, windows = [], next_wid = 0, dark_icon = False,
      timer_active = False,
      update_checker_timer =
        \<lparr>t_active = True, t_interval = 10000, t_first_run = True, t_started = 0\<rparr>,
      quit_on_last_window_closed = True, clock = 0,
      trace = [StylePatch False None, ColorSchemeUpdate False, SetTrayIcon False,
               BuildTrayMenu [], Log (LogInterval 10), RunHook ''init_qt'',
               ColorSchemeUpdate False]\<rparr>"
  by (simp add: offline_gui_def ElectrumGui_init_def Let_def set_dark_theme_if_needed_def
      build_tray_menu_def has_auto_update_check_def start_auto_update_timer_def demo_config_def
      emit_def emits_def)

theorem update_check_schedule_witness:
  "\<not> network offline_gui \<and>
   fire_times (new_events offline_gui
     (run_timeouts [False, False] (start_auto_update_timer True offline_gui))) =
     [10000, 3610000] \<and>
   check_times (new_events offline_gui
     (run_timeouts [False, False] (start_auto_update_timer True offline_gui))) = []"
proof -
  have n: "\<not> network offline_gui" "clock offline_gui = 0"
    by (simp_all add: offline_gui_eq)
  have u: "[0..<2] = [0, Suc 0]" by (simp add: upt_rec)
  show ?thesis
    using update_check_schedule[of offline_gui "[False, False]"] n
    by (simp add: u)
qed

text \<open>
  Claim C5 as stated fails in its last part: the shell constructed offline runs the
  timer (the constructor starts it whenever checking is enabled), and 10 s later the
  timeout is delivered, the slot logs that the check is skipped and re-arms the timer
  with the hourly interval. The scheduler fired while offline; only the check was not
  made.
\<close>

theorem offline_timer_fires_counterexample:
  "\<not> network offline_gui \<and> t_active (update_checker_timer offline_gui) \<and>
   new_events offline_gui (update_timer_fires False offline_gui) =
     [UpdateTimerTimeout 10000, Log LogOffline, Log (LogInterval 3600)] \<and>
   t_interval (update_checker_timer (update_timer_fires False offline_gui)) = 3600000"
  by (simp add: offline_gui_eq update_timer_fires_def on_auto_update_timeout_def
        start_auto_update_timer_def Let_def new_events_def emit_def)

end
